theory Spec2Isabelle
  imports Complex_Main
begin

section \<open>Data model\<close>

text \<open>
  The development embeds \<^verbatim>\<open>src/lib/twitter-client-timelines.ts\<close>: the mixin
  \<^verbatim>\<open>withTimelines\<close> with its methods \<^verbatim>\<open>getLikes\<close>,
  \<^verbatim>\<open>getBookmarksPaged\<close>, \<^verbatim>\<open>getBookmarkFolderTimelinePaged\<close> and
  \<^verbatim>\<open>fetchWithRetry\<close>.

  JavaScript numbers that count things (statuses, page sizes, limits, milliseconds) are
  modelled as mathematical integers; a non-finite \<^verbatim>\<open>limit\<close> is a constructor of
  its own. Strings are \<open>string\<close>; an optional value (\<^verbatim>\<open>T | undefined\<close>) is an
  \<open>option\<close>; a thrown exception is the left summand of a sum type and carries the message
  that the \<^verbatim>\<open>catch\<close> blocks read from it.
\<close>

record tweet =
  tweet_id :: string
  tweet_text :: string

text \<open>\<^verbatim>\<open>SearchResult\<close>: \<^verbatim>\<open>{ success, tweets?, error? }\<close>.\<close>

record search_result =
  success :: bool
  tweets :: "tweet list option"
  error :: "string option"

definition succeeded :: "tweet list \<Rightarrow> search_result" where
  "succeeded ts = \<lparr>success = True, tweets = Some ts, error = None\<rparr>"

definition failed :: "string \<Rightarrow> search_result" where
  "failed e = \<lparr>success = False, tweets = None, error = Some e\<rparr>"

text \<open>The result of \<^verbatim>\<open>getCurrentUser\<close>: \<^verbatim>\<open>{ success, user?, error? }\<close>.\<close>

record user_result =
  user_success :: bool
  user_id :: "string option"
  user_error :: "string option"

text \<open>
  The \<^verbatim>\<open>limit: number\<close> of the paged methods. \<^verbatim>\<open>Number.isFinite\<close> separates
  the finite values from \<^verbatim>\<open>Infinity\<close>, \<^verbatim>\<open>-Infinity\<close> and \<^verbatim>\<open>NaN\<close>.
\<close>

datatype limit = Finite int | NonFinite

text \<open>
  A request is the URL that the source assembles,
  \<^verbatim>\<open>`${TWITTER_API_BASE}/${queryId}/${operation}?${params}`\<close>, kept as its varying parts:
  the query id, the operation name and the optional members of the \<^verbatim>\<open>variables\<close>
  object. The constant members, the feature flags, the method (always GET) and the headers
  are left out.
\<close>

record request =
  req_queryId :: string
  req_operation :: string
  req_count :: "int option"
  req_cursor :: "string option"
  req_folder :: "string option"
  req_userId :: "string option"

text \<open>
  The parsed JSON body: the optional \<^verbatim>\<open>errors\<close> array (its messages) and the optional
  \<^verbatim>\<open>instructions\<close> tree found under the operation's path of \<^verbatim>\<open>data\<close>.
\<close>

record 'i payload =
  errors :: "string list option"
  instructions :: "'i option"

text \<open>
  A \<^verbatim>\<open>Response\<close>: the status, the \<^verbatim>\<open>retry-after\<close> header as
  \<^verbatim>\<open>headers.get\<close> returns it, and what \<^verbatim>\<open>text()\<close> and \<^verbatim>\<open>json()\<close>
  give, each of which may reject with a message.
\<close>

record 'i response =
  status :: nat
  retry_after :: "string option"
  body_text :: "string + string"
  body_json :: "string + 'i payload"

definition ok :: "'i response \<Rightarrow> bool" where
  "ok r = (200 \<le> status r \<and> status r \<le> 299)"

section \<open>The environment and the interaction history\<close>

text \<open>
  Everything the methods do to the outside world is recorded in a history, oldest event
  first. The collaborators that are not part of this file (the transport
  \<^verbatim>\<open>fetchWithTimeout\<close>, \<^verbatim>\<open>getQueryId\<close>, \<^verbatim>\<open>getCurrentUser\<close>,
  \<^verbatim>\<open>Math.random\<close> and the two response extractors) are parameters; the answer of a
  collaborator may depend on the whole history so far, which covers every stateful
  server, cache and random source. \<^verbatim>\<open>refreshQueryIds\<close> has no result; it leaves the
  \<open>Refresh\<close> event, which later answers may depend on.

  \<open>PageCall\<close> and \<open>PageDone\<close> are observation points of the pagination loop: the
  number of tweets collected, the page size and the cursor when a page is asked for, and
  the tweets and cursor of a page that came back.
\<close>

datatype 'i event =
    Http request "string + 'i response"
  | Delay int
  | Refresh
  | Resolve string
  | CurrentUser
  | PageCall nat int "string option"
  | PageDone "tweet list" "string option"

type_synonym 'i history = "'i event list"

record 'i env =
  fetchWithTimeout :: "'i history \<Rightarrow> request \<Rightarrow> string + 'i response"
  getQueryId :: "'i history \<Rightarrow> string \<Rightarrow> string"
  getCurrentUser :: "'i history \<Rightarrow> user_result"
  mathRandom :: "'i history \<Rightarrow> rat"
  parseTweetsFromInstructions :: "'i option \<Rightarrow> bool \<Rightarrow> tweet list"
  extractCursorFromInstructions :: "'i option \<Rightarrow> string option"

definition send :: "'i env \<Rightarrow> request \<Rightarrow> 'i history \<Rightarrow> (string + 'i response) \<times> 'i history" where
  "send E req h = (fetchWithTimeout E h req, h @ [Http req (fetchWithTimeout E h req)])"

definition refreshQueryIds :: "'i history \<Rightarrow> 'i history" where
  "refreshQueryIds h = h @ [Refresh]"

definition sleep :: "int \<Rightarrow> 'i history \<Rightarrow> 'i history" where
  "sleep ms h = h @ [Delay ms]"

definition since :: "'a list \<Rightarrow> 'a list \<Rightarrow> 'a list" where
  "since h h' = drop (length h) h'"

section \<open>String helpers of the JavaScript runtime\<close>

text \<open>\<^verbatim>\<open>Array.from(new Set(xs))\<close>: the first occurrence of each element, in order.\<close>

fun uniq_into :: "'a list \<Rightarrow> 'a list \<Rightarrow> 'a list" where
  "uniq_into acc [] = acc"
| "uniq_into acc (x # xs) = (if x \<in> set acc then uniq_into acc xs else uniq_into (acc @ [x]) xs)"

definition uniq :: "'a list \<Rightarrow> 'a list" where
  "uniq xs = uniq_into [] xs"

text \<open>\<^verbatim>\<open>xs.join(sep)\<close>.\<close>

fun join :: "string \<Rightarrow> string list \<Rightarrow> string" where
  "join sep [] = []"
| "join sep [x] = x"
| "join sep (x # y # ys) = x @ sep @ join sep (y # ys)"

text \<open>\<^verbatim>\<open>s.includes(sub)\<close>.\<close>

fun starts_with :: "string \<Rightarrow> string \<Rightarrow> bool" where
  "starts_with s [] = True"
| "starts_with [] (c # cs) = False"
| "starts_with (d # ds) (c # cs) = (d = c \<and> starts_with ds cs)"

fun str_includes :: "string \<Rightarrow> string \<Rightarrow> bool" where
  "str_includes [] sub = (sub = [])"
| "str_includes (c # cs) sub = (starts_with (c # cs) sub \<or> str_includes cs sub)"

text \<open>The decimal form of a status in a template string.\<close>

definition digit_char :: "nat \<Rightarrow> char" where
  "digit_char d = ''0123456789'' ! d"

fun string_of_nat :: "nat \<Rightarrow> string" where
  "string_of_nat n = (if n < 10 then [digit_char n] else string_of_nat (n div 10) @ [digit_char (n mod 10)])"

declare string_of_nat.simps [simp del]

text \<open>
  \<^verbatim>\<open>Number.parseInt(s, 10)\<close>: leading white space is skipped, one sign is read, then the
  longest run of decimal digits; no digit gives \<^verbatim>\<open>NaN\<close>, here \<open>None\<close>. A header value
  is a byte string, so the white space of ECMAScript that can occur is TAB, LF, VT, FF, CR,
  SP and NBSP.
\<close>

definition js_white_space :: "char \<Rightarrow> bool" where
  "js_white_space c = (of_char c \<in> {9, 10, 11, 12, 13, 32, 160 :: nat})"

definition is_digit :: "char \<Rightarrow> bool" where
  "is_digit c = (48 \<le> (of_char c :: nat) \<and> (of_char c :: nat) \<le> 57)"

fun digits_value :: "int \<Rightarrow> string \<Rightarrow> int" where
  "digits_value acc [] = acc"
| "digits_value acc (c # cs) = digits_value (acc * 10 + (int (of_char c) - 48)) cs"

definition parseInt10 :: "string \<Rightarrow> int option" where
  "parseInt10 s =
     (let s1 = dropWhile js_white_space s;
          sign = (if starts_with s1 ''-'' then - 1 else 1 :: int);
          s2 = (if starts_with s1 ''-'' \<or> starts_with s1 ''+'' then tl s1 else s1);
          z = takeWhile is_digit s2
      in if z = [] then None else Some (sign * digits_value 0 z))"

section \<open>The transient retry wrapper\<close>

definition maxRetries :: nat where
  "maxRetries = 2"

definition baseDelayMs :: int where
  "baseDelayMs = 500"

definition retryable :: "nat set" where
  "retryable = {429, 500, 502, 503, 504}"

text \<open>
  \<^verbatim>\<open>retryAfter ? Number.parseInt(retryAfter, 10) * 1000 : Number.NaN\<close>; \<open>None\<close> is
  \<^verbatim>\<open>NaN\<close>, the only non-finite value that integers can give here.
\<close>

definition retryAfterMs :: "string option \<Rightarrow> int option" where
  "retryAfterMs retryAfter =
     (case retryAfter of
        None \<Rightarrow> None
      | Some v \<Rightarrow> if v = [] then None else map_option (\<lambda>n. n * 1000) (parseInt10 v))"

definition backoffMs :: "'i env \<Rightarrow> 'i history \<Rightarrow> nat \<Rightarrow> 'i response \<Rightarrow> int" where
  "backoffMs E h attempt response =
     (case retryAfterMs (retry_after response) of
        Some ms \<Rightarrow> ms
      | None \<Rightarrow> baseDelayMs * 2 ^ attempt + \<lfloor>mathRandom E h * of_int baseDelayMs\<rfloor>)"

function fetchWithRetry_from ::
  "'i env \<Rightarrow> nat \<Rightarrow> request \<Rightarrow> 'i history \<Rightarrow> (string + 'i response) \<times> 'i history"
where
  "fetchWithRetry_from E attempt url h =
     (if attempt \<le> maxRetries then
        (case send E url h of
           (Inl thrown, h1) \<Rightarrow> (Inl thrown, h1)
         | (Inr response, h1) \<Rightarrow>
             if status response \<notin> retryable \<or> attempt = maxRetries then (Inr response, h1)
             else fetchWithRetry_from E (attempt + 1) url
                    (sleep (backoffMs E h1 attempt response) h1))
      else send E url h)"
  by pat_completeness auto
termination
  by (relation "measure (\<lambda>(E, attempt, url, h). Suc maxRetries - attempt)") auto

declare fetchWithRetry_from.simps [simp del]

definition fetchWithRetry ::
  "'i env \<Rightarrow> request \<Rightarrow> 'i history \<Rightarrow> (string + 'i response) \<times> 'i history"
where
  "fetchWithRetry E url h = fetchWithRetry_from E 0 url h"

section \<open>The page fetchers of the two bookmark timelines\<close>

text \<open>
  One attempt over the candidate query ids gives
  \<^verbatim>\<open>{ success: true, tweets, cursor, had404 }\<close> or
  \<^verbatim>\<open>{ success: false, error, had404 }\<close>.
\<close>

datatype attempt = Got "tweet list" "string option" bool | Failed string bool

text \<open>JavaScript truthiness of a \<^verbatim>\<open>string | undefined\<close>.\<close>

definition truthy :: "string option \<Rightarrow> bool" where
  "truthy c = (c \<noteq> None \<and> c \<noteq> Some [])"

definition has_errors :: "'i payload \<Rightarrow> bool" where
  "has_errors d = (case errors d of None \<Rightarrow> False | Some es \<Rightarrow> es \<noteq> [])"

definition error_messages :: "'i payload \<Rightarrow> string" where
  "error_messages d = join '', '' (case errors d of None \<Rightarrow> [] | Some es \<Rightarrow> es)"

text \<open>
  The \<^verbatim>\<open>for (const queryId of queryIds)\<close> loop of \<^verbatim>\<open>fetchPage\<close> in
  \<^verbatim>\<open>getBookmarksPaged\<close> (lines 224 to 301) and of \<^verbatim>\<open>tryOnce\<close> in
  \<^verbatim>\<open>getBookmarkFolderTimelinePaged\<close> (lines 383 to 461). The two loops are the same
  text up to the URL they build, here \<open>mk\<close>, and the noun in the last message, here
  \<open>what\<close>. \<open>lastError\<close> and \<open>had404\<close> are the variables that the closure updates;
  they are returned with the attempt because the folder variant runs the loop twice on the
  same variables. Every \<^verbatim>\<open>catch\<close> stores the message and goes on to the next id.
\<close>

fun timeline_candidates ::
  "'i env \<Rightarrow> (string \<Rightarrow> request) \<Rightarrow> string \<Rightarrow> bool \<Rightarrow> string list \<Rightarrow> string option \<Rightarrow> bool \<Rightarrow>
   'i history \<Rightarrow> (attempt \<times> string option \<times> bool) \<times> 'i history"
where
  "timeline_candidates E mk what includeRaw [] lastError had404 h =
     ((Failed (case lastError of Some e \<Rightarrow> e | None \<Rightarrow> ''Unknown error fetching '' @ what) had404,
       lastError, had404), h)"
| "timeline_candidates E mk what includeRaw (queryId # rest) lastError had404 h =
     (case fetchWithRetry E (mk queryId) h of
        (Inl thrown, h1) \<Rightarrow> timeline_candidates E mk what includeRaw rest (Some thrown) had404 h1
      | (Inr response, h1) \<Rightarrow>
          if status response = 404 then
            timeline_candidates E mk what includeRaw rest
              (Some (''HTTP '' @ string_of_nat (status response))) True h1
          else if \<not> ok response then
            (case body_text response of
               Inl thrown \<Rightarrow> timeline_candidates E mk what includeRaw rest (Some thrown) had404 h1
             | Inr text \<Rightarrow>
                 ((Failed (''HTTP '' @ string_of_nat (status response) @ '': '' @ take 200 text) had404,
                   lastError, had404), h1))
          else
            (case body_json response of
               Inl thrown \<Rightarrow> timeline_candidates E mk what includeRaw rest (Some thrown) had404 h1
             | Inr data \<Rightarrow>
                 let pageTweets = parseTweetsFromInstructions E (instructions data) includeRaw;
                     nextCursor = extractCursorFromInstructions E (instructions data)
                 in if has_errors data \<and> instructions data = None then
                      timeline_candidates E mk what includeRaw rest
                        (Some (error_messages data)) had404 h1
                    else ((Got pageTweets nextCursor had404, lastError, had404), h1)))"

declare timeline_candidates.simps [simp del]

definition getBookmarksQueryIds :: "'i env \<Rightarrow> 'i history \<Rightarrow> string list \<times> 'i history" where
  "getBookmarksQueryIds E h =
     (let primary = getQueryId E h ''Bookmarks''
      in (uniq [primary, ''RV1g3b8n_SGOHwkqKYSCFw'', ''tmd4ifV8RHltzn8ymGg1aw''],
          h @ [Resolve ''Bookmarks'']))"

definition getBookmarkFolderQueryIds :: "'i env \<Rightarrow> 'i history \<Rightarrow> string list \<times> 'i history" where
  "getBookmarkFolderQueryIds E h =
     (let primary = getQueryId E h ''BookmarkFolderTimeline''
      in (uniq [primary, ''KJIQpsvxrTfRIlbaRIySHQ''], h @ [Resolve ''BookmarkFolderTimeline'']))"

definition getLikesQueryIds :: "'i env \<Rightarrow> 'i history \<Rightarrow> string list \<times> 'i history" where
  "getLikesQueryIds E h =
     (let primary = getQueryId E h ''Likes''
      in (uniq [primary, ''JR2gceKucIKcVNB_9JkhsA''], h @ [Resolve ''Likes'']))"

text \<open>The URL of a bookmarks page: \<^verbatim>\<open>cursor\<close> is a member only if it is truthy.\<close>

definition bookmarks_request :: "int \<Rightarrow> string option \<Rightarrow> string \<Rightarrow> request" where
  "bookmarks_request pageCount pageCursor queryId =
     \<lparr>req_queryId = queryId, req_operation = ''Bookmarks'', req_count = Some pageCount,
      req_cursor = (if truthy pageCursor then pageCursor else None),
      req_folder = None, req_userId = None\<rparr>"

text \<open>\<^verbatim>\<open>fetchPage\<close> of \<^verbatim>\<open>getBookmarksPaged\<close>.\<close>

definition bookmarks_fetchPage ::
  "'i env \<Rightarrow> bool \<Rightarrow> int \<Rightarrow> string option \<Rightarrow> 'i history \<Rightarrow> attempt \<times> 'i history"
where
  "bookmarks_fetchPage E includeRaw pageCount pageCursor h =
     (case getBookmarksQueryIds E h of
        (queryIds, h0) \<Rightarrow>
          (case timeline_candidates E (bookmarks_request pageCount pageCursor) ''bookmarks''
                  includeRaw queryIds None False h0 of
             ((attempt, lastError, had404), h1) \<Rightarrow> (attempt, h1)))"

text \<open>
  \<^verbatim>\<open>buildVariables\<close> of the folder variant, as the URL built from it: \<^verbatim>\<open>count\<close>
  is a member only if \<open>includeCount\<close>.
\<close>

definition buildVariables :: "string \<Rightarrow> int \<Rightarrow> string option \<Rightarrow> bool \<Rightarrow> string \<Rightarrow> request" where
  "buildVariables folderId pageCount pageCursor includeCount queryId =
     \<lparr>req_queryId = queryId, req_operation = ''BookmarkFolderTimeline'',
      req_count = (if includeCount then Some pageCount else None),
      req_cursor = (if truthy pageCursor then pageCursor else None),
      req_folder = Some folderId, req_userId = None\<rparr>"

definition dq :: char where
  "dq = CHR 0x22"

definition count_marker :: string where
  "count_marker = ''Variable '' @ [dq] @ ''$count'' @ [dq]"

definition cursor_marker :: string where
  "cursor_marker = ''Variable '' @ [dq] @ ''$cursor'' @ [dq]"

fun attempt_failed_with :: "attempt \<Rightarrow> string \<Rightarrow> bool" where
  "attempt_failed_with (Got ts c f) marker = False"
| "attempt_failed_with (Failed e f) marker = str_includes e marker"

fun attempt_had404 :: "attempt \<Rightarrow> bool" where
  "attempt_had404 (Got ts c f) = f"
| "attempt_had404 (Failed e f) = f"

text \<open>
  \<^verbatim>\<open>fetchPage\<close> of \<^verbatim>\<open>getBookmarkFolderTimelinePaged\<close> (lines 372 to 478): the
  query ids are resolved once, \<^verbatim>\<open>tryOnce\<close> runs with the count, once more without it
  if the error names the count variable, and an error that names the cursor variable while a
  cursor was given becomes the message about the rejected cursor.
\<close>

definition folder_tryOnce ::
  "'i env \<Rightarrow> bool \<Rightarrow> string list \<Rightarrow> (string \<Rightarrow> request) \<Rightarrow> string option \<Rightarrow> bool \<Rightarrow> 'i history \<Rightarrow>
   (attempt \<times> string option \<times> bool) \<times> 'i history"
where
  "folder_tryOnce E includeRaw queryIds variables lastError had404 h =
     timeline_candidates E variables ''bookmark folder'' includeRaw queryIds lastError had404 h"

definition folder_fetchPage ::
  "'i env \<Rightarrow> string \<Rightarrow> bool \<Rightarrow> int \<Rightarrow> string option \<Rightarrow> 'i history \<Rightarrow> attempt \<times> 'i history"
where
  "folder_fetchPage E folderId includeRaw pageCount pageCursor h =
     (case getBookmarkFolderQueryIds E h of
        (queryIds, h0) \<Rightarrow>
          (case folder_tryOnce E includeRaw queryIds
                  (buildVariables folderId pageCount pageCursor True) None False h0 of
             ((attempt1, lastError1, had404_1), h1) \<Rightarrow>
               (case (if attempt_failed_with attempt1 count_marker
                      then folder_tryOnce E includeRaw queryIds
                             (buildVariables folderId pageCount pageCursor False) lastError1 had404_1 h1
                      else ((attempt1, lastError1, had404_1), h1)) of
                  ((attempt, lastError2, had404_2), h2) \<Rightarrow>
                    if attempt_failed_with attempt cursor_marker \<and> truthy pageCursor
                    then (Failed ''Bookmark folder pagination rejected the cursor parameter''
                            (attempt_had404 attempt), h2)
                    else (attempt, h2))))"

text \<open>
  \<^verbatim>\<open>fetchWithRefresh\<close> (lines 304 to 318 and, the same text, 480 to 494) over the
  \<^verbatim>\<open>fetchPage\<close> closure of its method. A failure it returns has no \<^verbatim>\<open>had404\<close>.
\<close>

datatype page = Page "tweet list" "string option" bool | PageError string

definition fetchWithRefresh ::
  "(int \<Rightarrow> string option \<Rightarrow> 'i history \<Rightarrow> attempt \<times> 'i history) \<Rightarrow>
   int \<Rightarrow> string option \<Rightarrow> 'i history \<Rightarrow> page \<times> 'i history"
where
  "fetchWithRefresh fetchPage pageCount pageCursor h =
     (case fetchPage pageCount pageCursor h of
        (Got ts c f, h1) \<Rightarrow> (Page ts c f, h1)
      | (Failed e f, h1) \<Rightarrow>
          if f then
            (case fetchPage pageCount pageCursor (refreshQueryIds h1) of
               (Got ts2 c2 f2, h2) \<Rightarrow> (Page ts2 c2 f2, h2)
             | (Failed e2 f2, h2) \<Rightarrow> (PageError e2, h2))
          else (PageError e, h1))"

section \<open>The pagination loop\<close>

text \<open>\<^verbatim>\<open>TimelinePaginationOptions\<close>: \<^verbatim>\<open>{ includeRaw?, maxPages? }\<close>.\<close>

record timeline_options =
  opt_includeRaw :: "bool option"
  opt_maxPages :: "int option"

definition includeRaw_of :: "timeline_options \<Rightarrow> bool" where
  "includeRaw_of options = (case opt_includeRaw options of None \<Rightarrow> False | Some b \<Rightarrow> b)"

definition pageSize :: int where
  "pageSize = 20"

definition unlimited :: "limit \<Rightarrow> bool" where
  "unlimited l = (case l of Finite n \<Rightarrow> False | NonFinite \<Rightarrow> True)"

text \<open>\<^verbatim>\<open>tweets.length < limit\<close> and \<^verbatim>\<open>tweets.length >= limit\<close> for a finite limit.\<close>

definition below_limit :: "tweet list \<Rightarrow> limit \<Rightarrow> bool" where
  "below_limit ts l = (case l of Finite n \<Rightarrow> int (length ts) < n | NonFinite \<Rightarrow> False)"

definition limit_reached :: "tweet list \<Rightarrow> limit \<Rightarrow> bool" where
  "limit_reached ts l = (case l of Finite n \<Rightarrow> n \<le> int (length ts) | NonFinite \<Rightarrow> False)"

definition pageCount_for :: "limit \<Rightarrow> tweet list \<Rightarrow> int" where
  "pageCount_for l ts = (case l of Finite n \<Rightarrow> min pageSize (n - int (length ts)) | NonFinite \<Rightarrow> pageSize)"

text \<open>
  The \<^verbatim>\<open>for (const tweet of page.tweets)\<close> loop: a tweet whose id was seen is skipped,
  any other is recorded and appended, and the loop breaks once a finite limit is reached.
\<close>

fun mergePage :: "limit \<Rightarrow> tweet list \<Rightarrow> string set \<Rightarrow> tweet list \<Rightarrow> string set \<times> tweet list" where
  "mergePage l [] seen ts = (seen, ts)"
| "mergePage l (tweet # rest) seen ts =
     (if tweet_id tweet \<in> seen then mergePage l rest seen ts
      else if \<not> unlimited l \<and> limit_reached (ts @ [tweet]) l
           then (insert (tweet_id tweet) seen, ts @ [tweet])
           else mergePage l rest (insert (tweet_id tweet) seen) (ts @ [tweet]))"

text \<open>\<^verbatim>\<open>maxPages && pagesFetched >= maxPages\<close>.\<close>

definition maxPages_reached :: "int option \<Rightarrow> int \<Rightarrow> bool" where
  "maxPages_reached maxPages pagesFetched =
     (case maxPages of None \<Rightarrow> False | Some m \<Rightarrow> m \<noteq> 0 \<and> m \<le> pagesFetched)"

text \<open>
  The \<^verbatim>\<open>while\<close> loop of \<^verbatim>\<open>getBookmarksPaged\<close> (lines 320 to 349) and of
  \<^verbatim>\<open>getBookmarkFolderTimelinePaged\<close> (lines 496 to 525), the same text, over the
  \<^verbatim>\<open>fetchWithRefresh\<close> closure of the method. The loop need not end (a server can hand
  out fresh cursors forever), so the result is an \<open>option\<close> and \<open>None\<close> stands for a call
  that never returns.
\<close>

partial_function (option) paged_loop ::
  "(int \<Rightarrow> string option \<Rightarrow> 'i history \<Rightarrow> page \<times> 'i history) \<Rightarrow> limit \<Rightarrow> int option \<Rightarrow>
   string set \<Rightarrow> tweet list \<Rightarrow> string option \<Rightarrow> int \<Rightarrow> 'i history \<Rightarrow>
   (search_result \<times> 'i history) option"
where
  "paged_loop fetch l maxPages seen ts cursor pagesFetched h =
     (if unlimited l \<or> below_limit ts l then
        (case fetch (pageCount_for l ts) cursor
                (h @ [PageCall (length ts) (pageCount_for l ts) cursor]) of
           (PageError e, h1) \<Rightarrow> Some (failed e, h1)
         | (Page pageTweets pageCursor f, h1) \<Rightarrow>
             (case mergePage l pageTweets seen ts of
                (seen', ts') \<Rightarrow>
                  if \<not> truthy pageCursor \<or> pageCursor = cursor \<or> pageTweets = []
                  then Some (succeeded ts', h1 @ [PageDone pageTweets pageCursor])
                  else if maxPages_reached maxPages (pagesFetched + 1)
                  then Some (succeeded ts', h1 @ [PageDone pageTweets pageCursor])
                  else paged_loop fetch l maxPages seen' ts' pageCursor (pagesFetched + 1)
                         (h1 @ [PageDone pageTweets pageCursor])))
      else Some (succeeded ts, h))"

definition getBookmarksPaged ::
  "'i env \<Rightarrow> limit \<Rightarrow> timeline_options \<Rightarrow> 'i history \<Rightarrow> (search_result \<times> 'i history) option"
where
  "getBookmarksPaged E l options h =
     paged_loop (fetchWithRefresh (bookmarks_fetchPage E (includeRaw_of options))) l
       (opt_maxPages options) {} [] None 0 h"

definition getBookmarkFolderTimelinePaged ::
  "'i env \<Rightarrow> string \<Rightarrow> limit \<Rightarrow> timeline_options \<Rightarrow> 'i history \<Rightarrow>
   (search_result \<times> 'i history) option"
where
  "getBookmarkFolderTimelinePaged E folderId l options h =
     paged_loop (fetchWithRefresh (folder_fetchPage E folderId (includeRaw_of options))) l
       (opt_maxPages options) {} [] None 0 h"


definition getAllBookmarks ::
  "'i env \<Rightarrow> timeline_options \<Rightarrow> 'i history \<Rightarrow> (search_result \<times> 'i history) option"
where
  "getAllBookmarks E options h = getBookmarksPaged E NonFinite options h"


definition getAllBookmarkFolderTimeline ::
  "'i env \<Rightarrow> string \<Rightarrow> timeline_options \<Rightarrow> 'i history \<Rightarrow> (search_result \<times> 'i history) option"
where
  "getAllBookmarkFolderTimeline E folderId options h =
     getBookmarkFolderTimelinePaged E folderId NonFinite options h"

section \<open>Likes\<close>

text \<open>
  \<^verbatim>\<open>tryOnce\<close> of \<^verbatim>\<open>getLikes\<close> gives \<^verbatim>\<open>{ success: true, tweets, had404 }\<close> or
  \<^verbatim>\<open>{ success: false, error, had404 }\<close>. Its loop (lines 103 to 161) calls
  \<^verbatim>\<open>fetchWithTimeout\<close> itself, and a non-empty error list ends the attempt.
\<close>

datatype likes_attempt = LikesGot "tweet list" bool | LikesFailed string bool

definition likes_request :: "string \<Rightarrow> int \<Rightarrow> string \<Rightarrow> request" where
  "likes_request userId count queryId =
     \<lparr>req_queryId = queryId, req_operation = ''Likes'', req_count = Some count,
      req_cursor = None, req_folder = None, req_userId = Some userId\<rparr>"

fun likes_candidates ::
  "'i env \<Rightarrow> (string \<Rightarrow> request) \<Rightarrow> bool \<Rightarrow> string list \<Rightarrow> string option \<Rightarrow> bool \<Rightarrow>
   'i history \<Rightarrow> likes_attempt \<times> 'i history"
where
  "likes_candidates E mk includeRaw [] lastError had404 h =
     (LikesFailed (case lastError of Some e \<Rightarrow> e | None \<Rightarrow> ''Unknown error fetching likes'') had404, h)"
| "likes_candidates E mk includeRaw (queryId # rest) lastError had404 h =
     (case send E (mk queryId) h of
        (Inl thrown, h1) \<Rightarrow> likes_candidates E mk includeRaw rest (Some thrown) had404 h1
      | (Inr response, h1) \<Rightarrow>
          if status response = 404 then
            likes_candidates E mk includeRaw rest
              (Some (''HTTP '' @ string_of_nat (status response))) True h1
          else if \<not> ok response then
            (case body_text response of
               Inl thrown \<Rightarrow> likes_candidates E mk includeRaw rest (Some thrown) had404 h1
             | Inr text \<Rightarrow>
                 (LikesFailed (''HTTP '' @ string_of_nat (status response) @ '': '' @ take 200 text)
                    had404, h1))
          else
            (case body_json response of
               Inl thrown \<Rightarrow> likes_candidates E mk includeRaw rest (Some thrown) had404 h1
             | Inr data \<Rightarrow>
                 if has_errors data then (LikesFailed (error_messages data) had404, h1)
                 else (LikesGot (parseTweetsFromInstructions E (instructions data) includeRaw)
                         had404, h1)))"

definition likes_tryOnce ::
  "'i env \<Rightarrow> (string \<Rightarrow> request) \<Rightarrow> bool \<Rightarrow> 'i history \<Rightarrow> likes_attempt \<times> 'i history"
where
  "likes_tryOnce E mk includeRaw h =
     (case getLikesQueryIds E h of
        (queryIds, h0) \<Rightarrow> likes_candidates E mk includeRaw queryIds None False h0)"

text \<open>
  \<^verbatim>\<open>getLikes\<close> (lines 75 to 179), called with a count; the default \<^verbatim>\<open>count = 20\<close>
  of a missing argument is left to the caller. \<open>user_id\<close> is \<^verbatim>\<open>userResult.user\<close>
  reduced to its id, so the first case is \<^verbatim>\<open>!userResult.success || !userResult.user\<close>.
\<close>

definition getLikes ::
  "'i env \<Rightarrow> int \<Rightarrow> timeline_options \<Rightarrow> 'i history \<Rightarrow> search_result \<times> 'i history"
where
  "getLikes E count options h =
     (let userResult = getCurrentUser E h; h0 = h @ [CurrentUser]
      in case (if user_success userResult then user_id userResult else None) of
           None \<Rightarrow>
             (failed (case user_error userResult of
                        Some e \<Rightarrow> e | None \<Rightarrow> ''Could not determine current user''), h0)
         | Some userId \<Rightarrow>
             (case likes_tryOnce E (likes_request userId count) (includeRaw_of options) h0 of
                (LikesGot ts f, h1) \<Rightarrow> (succeeded ts, h1)
              | (LikesFailed e f, h1) \<Rightarrow>
                  if f then
                    (case likes_tryOnce E (likes_request userId count) (includeRaw_of options)
                            (refreshQueryIds h1) of
                       (LikesGot ts2 f2, h2) \<Rightarrow> (succeeded ts2, h2)
                     | (LikesFailed e2 f2, h2) \<Rightarrow> (failed e2, h2))
                  else (failed e, h1)))"

section \<open>Observations on histories\<close>

text \<open>
  The functions of this section read a history; none of them is part of the program.
  \<open>https\<close> lists the transport calls with their outcomes, \<open>answers_to req\<close> the outcomes
  of the calls made with the request \<open>req\<close>, in order.
\<close>

fun http_of :: "'i event \<Rightarrow> (request \<times> (string + 'i response)) list" where
  "http_of (Http req out) = [(req, out)]"
| "http_of e = []"

definition https :: "'i event list \<Rightarrow> (request \<times> (string + 'i response)) list" where
  "https t = concat (map http_of t)"

definition answers_to :: "request \<Rightarrow> 'i event list \<Rightarrow> (string + 'i response) list" where
  "answers_to req t = map snd (filter (\<lambda>x. fst x = req) (https t))"

text \<open>Whether some transport call of the history was answered with status 404.\<close>

fun is_404 :: "string + 'i response \<Rightarrow> bool" where
  "is_404 (Inl thrown) = False"
| "is_404 (Inr r) = (status r = 404)"

definition saw_404 :: "'i event list \<Rightarrow> bool" where
  "saw_404 t = list_ex (\<lambda>x. is_404 (snd x)) (https t)"

text \<open>The number of calls of \<^verbatim>\<open>refreshQueryIds\<close> and of \<^verbatim>\<open>getQueryId\<close>.\<close>

fun is_refresh :: "'i event \<Rightarrow> bool" where
  "is_refresh Refresh = True"
| "is_refresh e = False"

fun is_resolve :: "'i event \<Rightarrow> bool" where
  "is_resolve (Resolve opn) = True"
| "is_resolve e = False"

definition refreshes :: "'i event list \<Rightarrow> nat" where
  "refreshes t = length (filter is_refresh t)"

definition resolves :: "'i event list \<Rightarrow> nat" where
  "resolves t = length (filter is_resolve t)"

text \<open>The events of the transport and of the timer, and those of the pagination loop.\<close>

fun is_transport :: "'i event \<Rightarrow> bool" where
  "is_transport (Http req out) = True"
| "is_transport (Delay ms) = True"
| "is_transport e = False"

fun is_observation :: "'i event \<Rightarrow> bool" where
  "is_observation (PageCall k c cur) = True"
| "is_observation (PageDone ts cur) = True"
| "is_observation e = False"

text \<open>An outcome that the retry wrapper answers with another attempt, if one is left.\<close>

definition recoverable :: "string + 'i response \<Rightarrow> bool" where
  "recoverable out = (case out of Inl thrown \<Rightarrow> False | Inr r \<Rightarrow> status r \<in> retryable)"

text \<open>
  The history of one call of the retry wrapper: each retried response with the delay that
  followed it, then the outcome that was returned.
\<close>

definition retry_events ::
  "request \<Rightarrow> ('i response \<times> int) list \<Rightarrow> string + 'i response \<Rightarrow> 'i event list" where
  "retry_events url retried final =
     concat (map (\<lambda>rd. [Http url (Inr (fst rd)), Delay (snd rd)]) retried) @ [Http url final]"

text \<open>
  What the delay \<open>snd rd\<close> after the response \<open>fst rd\<close> of attempt number \<open>attempt\<close>
  has to be: the header's seconds times 1000 if \<^verbatim>\<open>parseInt\<close> reads a number, and
  otherwise a value in the half-open interval of the exponential backoff.
\<close>

definition delay_ok :: "nat \<Rightarrow> 'i response \<times> int \<Rightarrow> bool" where
  "delay_ok attempt rd =
     (case retryAfterMs (retry_after (fst rd)) of
        Some ms \<Rightarrow> snd rd = ms
      | None \<Rightarrow> baseDelayMs * 2 ^ attempt \<le> snd rd \<and> snd rd < baseDelayMs * 2 ^ attempt + baseDelayMs)"

text \<open>The contract of \<^verbatim>\<open>Math.random\<close>: a number in \<open>[0, 1)\<close>.\<close>

definition random_unit :: "'i env \<Rightarrow> bool" where
  "random_unit E = (\<forall>h. 0 \<le> mathRandom E h \<and> mathRandom E h < 1)"

text \<open>
  The outcomes of the calls made with one request obey the retry discipline: at most three,
  each but the last recoverable, and a recoverable last one only as the third.
\<close>

definition retry_disciplined :: "(string + 'i response) list \<Rightarrow> bool" where
  "retry_disciplined outs =
     (length outs \<le> 3 \<and> list_all recoverable (butlast outs) \<and>
      (outs \<noteq> [] \<and> recoverable (last outs) \<longrightarrow> length outs = 3))"


text \<open>
  The decision that the loop body of \<open>timeline_candidates\<close> takes on the outcome of one
  candidate, written once more as a function so that the loop can be unfolded one candidate
  at a time: \<open>Inl\<close> is the attempt that the loop returns, \<open>Inr\<close> the new
  \<open>lastError\<close> and \<open>had404\<close> with which it goes on.
\<close>

definition verdict ::
  "'i env \<Rightarrow> bool \<Rightarrow> string + 'i response \<Rightarrow> bool \<Rightarrow> attempt + (string option \<times> bool)" where
  "verdict E includeRaw out had404 =
     (case out of
        Inl thrown \<Rightarrow> Inr (Some thrown, had404)
      | Inr response \<Rightarrow>
          if status response = 404 then Inr (Some (''HTTP '' @ string_of_nat (status response)), True)
          else if \<not> ok response then
            (case body_text response of
               Inl thrown \<Rightarrow> Inr (Some thrown, had404)
             | Inr text \<Rightarrow>
                 Inl (Failed (''HTTP '' @ string_of_nat (status response) @ '': '' @ take 200 text) had404))
          else
            (case body_json response of
               Inl thrown \<Rightarrow> Inr (Some thrown, had404)
             | Inr data \<Rightarrow>
                 if has_errors data \<and> instructions data = None
                 then Inr (Some (error_messages data), had404)
                 else Inl (Got (parseTweetsFromInstructions E (instructions data) includeRaw)
                             (extractCursorFromInstructions E (instructions data)) had404)))"

text \<open>
  The history of one pass over the candidates \<open>qs\<close>: transport events only, every request
  built from a candidate, and the retry discipline for each request when the candidates give
  different requests.
\<close>

definition sweep_trace :: "(string \<Rightarrow> request) \<Rightarrow> string list \<Rightarrow> 'i event list \<Rightarrow> bool" where
  "sweep_trace mk qs t =
     (list_all is_transport t \<and> (\<forall>x \<in> set (https t). fst x \<in> mk ` set qs) \<and>
      (distinct (map mk qs) \<longrightarrow> (\<forall>req. retry_disciplined (answers_to req t))))"

text \<open>
  A \<^verbatim>\<open>fetchPage\<close> closure whose history is one call of \<^verbatim>\<open>getQueryId\<close> followed
  by transport events.
\<close>

definition sweeping :: "(int \<Rightarrow> string option \<Rightarrow> 'i history \<Rightarrow> attempt \<times> 'i history) \<Rightarrow> bool" where
  "sweeping fetchPage =
     (\<forall>pageCount pageCursor h. \<exists>opn t.
        snd (fetchPage pageCount pageCursor h) = h @ Resolve opn # t \<and> list_all is_transport t)"

text \<open>
  What \<^verbatim>\<open>fetchWithRefresh\<close> returns for an attempt, and the attempts it answers with a
  refresh.
\<close>

fun page_of :: "attempt \<Rightarrow> page" where
  "page_of (Got ts c f) = Page ts c f"
| "page_of (Failed e f) = PageError e"

fun not_found_failure :: "attempt \<Rightarrow> bool" where
  "not_found_failure (Got ts c f) = False"
| "not_found_failure (Failed e f) = f"

text \<open>The decision of the loop body of \<open>likes_candidates\<close> on one outcome.\<close>

definition likes_verdict ::
  "'i env \<Rightarrow> bool \<Rightarrow> string + 'i response \<Rightarrow> bool \<Rightarrow> likes_attempt + (string option \<times> bool)" where
  "likes_verdict E includeRaw out had404 =
     (case out of
        Inl thrown \<Rightarrow> Inr (Some thrown, had404)
      | Inr response \<Rightarrow>
          if status response = 404 then Inr (Some (''HTTP '' @ string_of_nat (status response)), True)
          else if \<not> ok response then
            (case body_text response of
               Inl thrown \<Rightarrow> Inr (Some thrown, had404)
             | Inr text \<Rightarrow>
                 Inl (LikesFailed (''HTTP '' @ string_of_nat (status response) @ '': '' @ take 200 text) had404))
          else
            (case body_json response of
               Inl thrown \<Rightarrow> Inr (Some thrown, had404)
             | Inr data \<Rightarrow>
                 if has_errors data then Inl (LikesFailed (error_messages data) had404)
                 else Inl (LikesGot (parseTweetsFromInstructions E (instructions data) includeRaw) had404)))"

text \<open>The flag of a likes attempt, the attempts answered with a refresh, and the result.\<close>

fun likes_had404 :: "likes_attempt \<Rightarrow> bool" where
  "likes_had404 (LikesGot ts f) = f"
| "likes_had404 (LikesFailed e f) = f"

fun likes_not_found :: "likes_attempt \<Rightarrow> bool" where
  "likes_not_found (LikesGot ts f) = False"
| "likes_not_found (LikesFailed e f) = f"

fun likes_result :: "likes_attempt \<Rightarrow> search_result" where
  "likes_result (LikesGot ts f) = succeeded ts"
| "likes_result (LikesFailed e f) = failed e"

text \<open>The negation of \<^verbatim>\<open>!userResult.success || !userResult.user\<close>.\<close>

definition user_known :: "user_result \<Rightarrow> bool" where
  "user_known u = (user_success u \<and> user_id u \<noteq> None)"

declare likes_candidates.simps [simp del]

text \<open>
  The identities of a list of tweets, the tweets of the pages that came back, and the
  page requests as pairs of the number of tweets collected and the page size asked for.
\<close>

definition ids :: "tweet list \<Rightarrow> string set" where
  "ids ts = tweet_id ` set ts"

fun page_done_of :: "'i event \<Rightarrow> tweet list" where
  "page_done_of (PageDone ts cur) = ts"
| "page_done_of e = []"

definition served :: "'i event list \<Rightarrow> tweet list" where
  "served t = concat (map page_done_of t)"

fun page_call_of :: "'i event \<Rightarrow> (nat \<times> int) list" where
  "page_call_of (PageCall k c cur) = [(k, c)]"
| "page_call_of e = []"

definition page_calls :: "'i event list \<Rightarrow> (nat \<times> int) list" where
  "page_calls t = concat (map page_call_of t)"




section \<open>Example environments\<close>

text \<open>
  Concrete environments on which the theorems are run. The instruction tree of a response is
  the pair of the tweets and the cursor that the extractors read from it; the primary query
  id is always \<open>primary\<close> and \<^verbatim>\<open>Math.random\<close> always gives one half.
\<close>

type_synonym page_tree = "tweet list \<times> string option"

definition demo_env ::
  "(page_tree history \<Rightarrow> request \<Rightarrow> string + page_tree response) \<Rightarrow> user_result \<Rightarrow> page_tree env" where
  "demo_env transport u =
     \<lparr>fetchWithTimeout = transport,
      getQueryId = (\<lambda>h opn. ''primary''),
      getCurrentUser = (\<lambda>h. u),
      mathRandom = (\<lambda>h. 1 / 2),
      parseTweetsFromInstructions = (\<lambda>i raw. case i of None \<Rightarrow> [] | Some p \<Rightarrow> fst p),
      extractCursorFromInstructions = (\<lambda>i. case i of None \<Rightarrow> None | Some p \<Rightarrow> snd p)\<rparr>"

definition alice :: user_result where
  "alice = \<lparr>user_success = True, user_id = Some ''42'', user_error = None\<rparr>"

definition nobody :: user_result where
  "nobody = \<lparr>user_success = False, user_id = None, user_error = Some ''Unauthorized''\<rparr>"

definition page_response :: "tweet list \<Rightarrow> string option \<Rightarrow> page_tree response" where
  "page_response ts cur =
     \<lparr>status = 200, retry_after = None, body_text = Inr [],
      body_json = Inr \<lparr>errors = None, instructions = Some (ts, cur)\<rparr>\<rparr>"

definition plain_response :: "nat \<Rightarrow> string \<Rightarrow> page_tree response" where
  "plain_response st text =
     \<lparr>status = st, retry_after = None, body_text = Inr text, body_json = Inl ''Unexpected token''\<rparr>"

definition tw :: "string \<Rightarrow> tweet" where
  "tw i = \<lparr>tweet_id = i, tweet_text = ''text''\<rparr>"

definition page_one :: "tweet list" where
  "page_one = map tw [''01'', ''02'', ''03'', ''04'', ''05'', ''06'', ''07'', ''08'', ''09'', ''10'',
                      ''11'', ''12'', ''13'', ''14'', ''15'', ''16'', ''17'', ''18'', ''19'', ''20'']"

definition page_dups :: "tweet list" where
  "page_dups = map tw [''03'', ''07'', ''11'', ''15'', ''19'']"


definition no_options :: timeline_options where
  "no_options = \<lparr>opt_includeRaw = None, opt_maxPages = None\<rparr>"

text \<open>
  The scenario of the unchanged cursor: the first page has twenty tweets and the cursor
  \<open>c1\<close>; the page behind \<open>c1\<close> repeats five of them and gives \<open>c1\<close> again.
\<close>

definition echo_transport :: "page_tree history \<Rightarrow> request \<Rightarrow> string + page_tree response" where
  "echo_transport h req =
     Inr (if req_cursor req = None then page_response page_one (Some ''c1'')
          else page_response page_dups (Some ''c1''))"


text \<open>A timeline whose second page fails with status 403.\<close>

definition broken_transport :: "page_tree history \<Rightarrow> request \<Rightarrow> string + page_tree response" where
  "broken_transport h req =
     Inr (if req_cursor req = None then page_response page_one (Some ''c1'')
          else plain_response 403 ''boom'')"

text \<open>Every query id is unknown to the server until the ids have been refreshed.\<close>

definition stale_transport :: "page_tree history \<Rightarrow> request \<Rightarrow> string + page_tree response" where
  "stale_transport h req =
     Inr (if list_ex is_refresh h then page_response page_dups None else plain_response 404 [])"

text \<open>A server that answers 503, one that answers 429.\<close>

definition busy_transport :: "page_tree history \<Rightarrow> request \<Rightarrow> string + page_tree response" where
  "busy_transport h req = Inr (plain_response 503 ''busy'')"

definition limited_transport :: "page_tree history \<Rightarrow> request \<Rightarrow> string + page_tree response" where
  "limited_transport h req = Inr (plain_response 429 ''slow down'')"



text \<open>The primary id is unknown (404) and the first fallback is refused (403).\<close>

definition mixed_transport :: "page_tree history \<Rightarrow> request \<Rightarrow> string + page_tree response" where
  "mixed_transport h req =
     Inr (if req_queryId req = ''primary'' then plain_response 404 []
          else plain_response 403 ''denied'')"


text \<open>A server that rejects the count variable, and one that rejects the cursor variable.\<close>

definition count_transport :: "page_tree history \<Rightarrow> request \<Rightarrow> string + page_tree response" where
  "count_transport h req =
     Inr (if req_count req \<noteq> None then plain_response 400 (count_marker @ '' is not defined'')
          else page_response page_dups None)"

definition cursor_transport :: "page_tree history \<Rightarrow> request \<Rightarrow> string + page_tree response" where
  "cursor_transport h req =
     Inr (if req_cursor req \<noteq> None then plain_response 400 (cursor_marker @ '' got invalid value'')
          else page_response page_dups (Some ''c9''))"


text \<open>The failures that the two servers cause in the first attempt of the folder fetch.\<close>

definition count_failure :: string where
  "count_failure = ''HTTP 400: '' @ count_marker @ '' is not defined''"

definition cursor_failure :: string where
  "cursor_failure = ''HTTP 400: '' @ cursor_marker @ '' got invalid value''"

section \<open>Histories of the retry wrapper\<close>

lemma since_append [simp]: "since h (h @ t) = t"
  by (simp add: since_def)

lemma https_append [simp]: "https (t @ u) = https t @ https u"
  by (simp add: https_def)

lemma https_Nil [simp]: "https [] = []"
  by (simp add: https_def)

lemma https_Cons [simp]: "https (e # t) = http_of e @ https t"
  by (simp add: https_def)

lemma answers_to_append [simp]: "answers_to req (t @ u) = answers_to req t @ answers_to req u"
  by (simp add: answers_to_def)

lemma saw_404_append [simp]: "saw_404 (t @ u) = (saw_404 t \<or> saw_404 u)"
  by (simp add: saw_404_def list_ex_iff) blast

lemma refreshes_append [simp]: "refreshes (t @ u) = refreshes t + refreshes u"
  by (simp add: refreshes_def)

lemma resolves_append [simp]: "resolves (t @ u) = resolves t + resolves u"
  by (simp add: resolves_def)

lemma backoffMs_ok:
  assumes "random_unit E"
  shows "delay_ok attempt (response, backoffMs E h attempt response)"
proof (cases "retryAfterMs (retry_after response)")
  case (Some ms)
  then show ?thesis by (simp add: delay_ok_def backoffMs_def)
next
  case None
  have r: "0 \<le> mathRandom E h" "mathRandom E h < 1"
    using assms by (simp_all add: random_unit_def)
  have "0 \<le> mathRandom E h * 500" using r by simp
  then have lo: "0 \<le> \<lfloor>mathRandom E h * 500\<rfloor>" by simp
  have "mathRandom E h * 500 < 500" using r by simp
  then have hi: "\<lfloor>mathRandom E h * 500\<rfloor> < 500" by (simp add: floor_less_iff)
  show ?thesis using None lo hi by (simp add: delay_ok_def backoffMs_def baseDelayMs_def)
qed

lemma retry_events_Cons:
  "retry_events url ((r, d) # retried) final = Http url (Inr r) # Delay d # retry_events url retried final"
  by (simp add: retry_events_def)

lemma retry_events_Nil: "retry_events url [] final = [Http url final]"
  by (simp add: retry_events_def)

lemma fetchWithRetry_from_trace:
  assumes "attempt \<le> maxRetries"
  shows "\<exists>retried.
           snd (fetchWithRetry_from E attempt url h)
             = h @ retry_events url retried (fst (fetchWithRetry_from E attempt url h))
         \<and> length retried \<le> maxRetries - attempt
         \<and> (\<forall>rd \<in> set retried. status (fst rd) \<in> retryable)
         \<and> (recoverable (fst (fetchWithRetry_from E attempt url h)) \<longrightarrow> length retried = maxRetries - attempt)
         \<and> (random_unit E \<longrightarrow> (\<forall>i < length retried. delay_ok (attempt + i) (retried ! i)))"
  using assms
proof (induction E attempt url h rule: fetchWithRetry_from.induct)
  case (1 E attempt url h)
  let ?out = "fetchWithTimeout E h url"
  let ?h1 = "h @ [Http url ?out]"
  show ?case
  proof (cases ?out)
    case (Inl thrown)
    then have "fetchWithRetry_from E attempt url h = (Inl thrown, ?h1)"
      using "1.prems" by (subst fetchWithRetry_from.simps) (simp add: send_def)
    then show ?thesis using Inl
      by (intro exI [of _ "[]"]) (simp add: retry_events_Nil recoverable_def)
  next
    case (Inr response)
    show ?thesis
    proof (cases "status response \<notin> retryable \<or> attempt = maxRetries")
      case True
      then have "fetchWithRetry_from E attempt url h = (Inr response, ?h1)"
        using "1.prems" Inr by (subst fetchWithRetry_from.simps) (simp add: send_def)
      then show ?thesis using True Inr
        by (intro exI [of _ "[]"]) (auto simp add: retry_events_Nil recoverable_def)
    next
      case False
      let ?d = "backoffMs E ?h1 attempt response"
      let ?h2 = "sleep ?d ?h1"
      have step: "fetchWithRetry_from E attempt url h = fetchWithRetry_from E (attempt + 1) url ?h2"
        using "1.prems" Inr False by (subst fetchWithRetry_from.simps) (simp add: send_def)
      have le: "attempt + 1 \<le> maxRetries" using False "1.prems" by simp
      have "send E url h = (Inr response, ?h1)" using Inr by (simp add: send_def)
      from "1.IH" [OF "1.prems" this [symmetric] refl False le]
      obtain retried where
        t: "snd (fetchWithRetry_from E (attempt + 1) url ?h2)
              = ?h2 @ retry_events url retried (fst (fetchWithRetry_from E (attempt + 1) url ?h2))"
        and n: "length retried \<le> maxRetries - (attempt + 1)"
        and s: "\<forall>rd \<in> set retried. status (fst rd) \<in> retryable"
        and f: "recoverable (fst (fetchWithRetry_from E (attempt + 1) url ?h2)) \<longrightarrow>
                  length retried = maxRetries - (attempt + 1)"
        and d: "random_unit E \<longrightarrow> (\<forall>i < length retried. delay_ok (attempt + 1 + i) (retried ! i))"
        by blast
      have d': "random_unit E \<longrightarrow> (\<forall>i < length ((response, ?d) # retried).
                  delay_ok (attempt + i) (((response, ?d) # retried) ! i))"
      proof (intro impI allI)
        fix i assume ru: "random_unit E" and i: "i < length ((response, ?d) # retried)"
        show "delay_ok (attempt + i) (((response, ?d) # retried) ! i)"
        proof (cases i)
          case 0
          then show ?thesis using backoffMs_ok [OF ru] by simp
        next
          case (Suc j)
          then show ?thesis using d ru i by simp
        qed
      qed
      show ?thesis
        apply (rule exI [of _ "(response, ?d) # retried"])
        using t n s f d' False le Inr
        by (auto simp add: step retry_events_Cons sleep_def)
    qed
  qed
qed

lemma fetchWithRetry_trace:
  "\<exists>retried.
      snd (fetchWithRetry E url h) = h @ retry_events url retried (fst (fetchWithRetry E url h))
    \<and> length retried \<le> 2
    \<and> (\<forall>rd \<in> set retried. status (fst rd) \<in> retryable)
    \<and> (recoverable (fst (fetchWithRetry E url h)) \<longrightarrow> length retried = 2)
    \<and> (random_unit E \<longrightarrow> (\<forall>i < length retried. delay_ok i (retried ! i)))"
  using fetchWithRetry_from_trace [of 0 E url h]
  by (simp add: fetchWithRetry_def maxRetries_def)

lemma https_retry_events:
  "https (retry_events url retried final) = map (\<lambda>rd. (url, Inr (fst rd))) retried @ [(url, final)]"
  by (induction retried) (simp_all add: retry_events_def)

lemma transport_retry_events: "list_all is_transport (retry_events url retried final)"
  by (induction retried) (simp_all add: retry_events_def)

lemma answers_to_retry_events:
  "answers_to req (retry_events url retried final) =
     (if req = url then map (\<lambda>rd. Inr (fst rd)) retried @ [final] else [])"
  by (simp add: answers_to_def https_retry_events comp_def)

lemma saw_404_retry_events:
  assumes "\<forall>rd \<in> set retried. status (fst rd) \<in> retryable"
  shows "saw_404 (retry_events url retried final) = is_404 final"
proof -
  have "\<not> list_ex (\<lambda>x. is_404 (snd x)) (map (\<lambda>rd. (url, Inr (fst rd))) retried)"
    using assms by (auto simp add: list_ex_iff retryable_def)
  then show ?thesis
    by (simp add: saw_404_def https_retry_events list_ex_iff) 
qed

lemma retry_block_disciplined:
  assumes "length retried \<le> 2"
    and "\<forall>rd \<in> set retried. status (fst rd) \<in> retryable"
    and "recoverable final \<longrightarrow> length retried = 2"
  shows "retry_disciplined (map (\<lambda>rd. Inr (fst rd)) retried @ [final])"
  using assms by (auto simp add: retry_disciplined_def list_all_iff recoverable_def butlast_append)

section \<open>Histories of the candidate loop\<close>

lemma timeline_candidates_step:
  "timeline_candidates E mk what includeRaw (q # rest) lastError had404 h =
     (case verdict E includeRaw (fst (fetchWithRetry E (mk q) h)) had404 of
        Inl a \<Rightarrow> ((a, lastError, had404), snd (fetchWithRetry E (mk q) h))
      | Inr v \<Rightarrow> timeline_candidates E mk what includeRaw rest (fst v) (snd v)
                  (snd (fetchWithRetry E (mk q) h)))"
proof (cases "fetchWithRetry E (mk q) h")
  case (Pair out h1)
  show ?thesis
  proof (cases out)
    case (Inl thrown)
    then show ?thesis using Pair
      by (simp add: timeline_candidates.simps verdict_def)
  next
    case (Inr response)
    then show ?thesis using Pair
      by (simp add: timeline_candidates.simps verdict_def Let_def split: sum.split)
  qed
qed

lemma verdict_continue:
  "verdict E includeRaw out had404 = Inr v \<Longrightarrow> snd v = (had404 \<or> is_404 out)"
  by (auto simp add: verdict_def split: sum.splits if_splits)

lemma verdict_final:
  "verdict E includeRaw out had404 = Inl a \<Longrightarrow> attempt_had404 a = had404 \<and> \<not> is_404 out"
  by (auto simp add: verdict_def split: sum.splits if_splits)

lemma fetchWithRetry_summary:
  "\<exists>t. snd (fetchWithRetry E url h) = h @ t
      \<and> list_all is_transport t
      \<and> (\<forall>x \<in> set (https t). fst x = url)
      \<and> saw_404 t = is_404 (fst (fetchWithRetry E url h))
      \<and> retry_disciplined (answers_to url t)"
proof -
  obtain retried where
    t: "snd (fetchWithRetry E url h) = h @ retry_events url retried (fst (fetchWithRetry E url h))"
    and n: "length retried \<le> 2"
    and s: "\<forall>rd \<in> set retried. status (fst rd) \<in> retryable"
    and f: "recoverable (fst (fetchWithRetry E url h)) \<longrightarrow> length retried = 2"
    using fetchWithRetry_trace [of E url h] by blast
  show ?thesis
    apply (rule exI [of _ "retry_events url retried (fst (fetchWithRetry E url h))"])
    using t saw_404_retry_events [OF s] retry_block_disciplined [OF n s f]
    by (auto simp add: transport_retry_events answers_to_retry_events https_retry_events)
qed

lemma answers_to_other:
  assumes "\<forall>x \<in> set (https t). fst x \<in> A" and "req \<notin> A"
  shows "answers_to req t = []"
  using assms by (auto simp add: answers_to_def filter_empty_conv)

lemma retry_disciplined_Nil [simp]: "retry_disciplined []"
  by (simp add: retry_disciplined_def)

lemma sweep_trace_Nil [simp]: "sweep_trace mk qs []"
  by (simp add: sweep_trace_def answers_to_def)

lemma sweep_trace_block:
  assumes "list_all is_transport t1" and "\<forall>x \<in> set (https t1). fst x = mk q"
    and "retry_disciplined (answers_to (mk q) t1)" and "sweep_trace mk rest t2"
  shows "sweep_trace mk (q # rest) (t1 @ t2)"
proof -
  have a: "list_all is_transport (t1 @ t2)"
    using assms by (simp add: sweep_trace_def)
  have b: "\<forall>x \<in> set (https (t1 @ t2)). fst x \<in> mk ` set (q # rest)"
    using assms by (auto simp add: sweep_trace_def)
  have c: "retry_disciplined (answers_to req (t1 @ t2))" if d: "distinct (map mk (q # rest))" for req
  proof (cases "req = mk q")
    case True
    have "mk q \<notin> mk ` set rest" using d by auto
    then have "answers_to (mk q) t2 = []"
      using assms(4) answers_to_other [of t2 "mk ` set rest" "mk q"] by (simp add: sweep_trace_def)
    then show ?thesis using True assms(3) by simp
  next
    case False
    then have "answers_to req t1 = []"
      using assms(2) answers_to_other [of t1 "{mk q}" req] by simp
    then show ?thesis using assms(4) d by (simp add: sweep_trace_def)
  qed
  show ?thesis using a b c unfolding sweep_trace_def by blast
qed

lemma timeline_candidates_trace:
  "\<exists>t. snd (timeline_candidates E mk what includeRaw qs lastError had404 h) = h @ t
      \<and> sweep_trace mk qs t
      \<and> snd (snd (fst (timeline_candidates E mk what includeRaw qs lastError had404 h)))
          = (had404 \<or> saw_404 t)
      \<and> attempt_had404 (fst (fst (timeline_candidates E mk what includeRaw qs lastError had404 h)))
          = (had404 \<or> saw_404 t)"
proof (induction qs arbitrary: lastError had404 h)
  case Nil
  show ?case by (intro exI [of _ "[]"]) (simp add: saw_404_def timeline_candidates.simps)
next
  case (Cons q rest)
  let ?r = "fetchWithRetry E (mk q) h"
  obtain t1 where
    t1: "snd ?r = h @ t1" and tr: "list_all is_transport t1"
    and rq: "\<forall>x \<in> set (https t1). fst x = mk q"
    and s4: "saw_404 t1 = is_404 (fst ?r)"
    and rd: "retry_disciplined (answers_to (mk q) t1)"
    using fetchWithRetry_summary [of E "mk q" h] by blast
  show ?case
  proof (cases "verdict E includeRaw (fst ?r) had404")
    case (Inl a)
    have "sweep_trace mk (q # rest) (t1 @ [])"
      by (rule sweep_trace_block [where mk = mk and q = q, OF tr rq rd]) simp
    then show ?thesis using Inl t1 s4 verdict_final [OF Inl]
      by (intro exI [of _ t1]) (simp add: timeline_candidates_step)
  next
    case (Inr v)
    obtain t2 where
      t2: "snd (timeline_candidates E mk what includeRaw rest (fst v) (snd v) (h @ t1)) = (h @ t1) @ t2"
      and sw: "sweep_trace mk rest t2"
      and f1: "snd (snd (fst (timeline_candidates E mk what includeRaw rest (fst v) (snd v) (h @ t1))))
                = (snd v \<or> saw_404 t2)"
      and f2: "attempt_had404 (fst (fst (timeline_candidates E mk what includeRaw rest (fst v) (snd v) (h @ t1))))
                = (snd v \<or> saw_404 t2)"
      using Cons.IH [of "fst v" "snd v" "h @ t1"] by blast
    have "sweep_trace mk (q # rest) (t1 @ t2)"
      by (rule sweep_trace_block [where mk = mk and q = q, OF tr rq rd sw])
    then show ?thesis using Inr t1 t2 f1 f2 s4 verdict_continue [OF Inr]
      by (intro exI [of _ "t1 @ t2"]) (simp add: timeline_candidates_step)
  qed
qed

section \<open>Histories of the page fetchers\<close>

lemma set_uniq_into: "set (uniq_into acc xs) = set acc \<union> set xs"
  by (induction xs arbitrary: acc) auto

lemma distinct_uniq_into: "distinct acc \<Longrightarrow> distinct (uniq_into acc xs)"
  by (induction xs arbitrary: acc) auto

lemma distinct_uniq: "distinct (uniq xs)"
  by (simp add: uniq_def distinct_uniq_into)

lemma inj_bookmarks_request: "inj (bookmarks_request pageCount pageCursor)"
  by (rule injI) (simp add: bookmarks_request_def)

lemma inj_buildVariables: "inj (buildVariables folderId pageCount pageCursor includeCount)"
  by (rule injI) (simp add: buildVariables_def)

lemma transport_no_refresh: "list_all is_transport t \<Longrightarrow> refreshes t = 0"
proof (induction t)
  case Nil
  show ?case by (simp add: refreshes_def)
next
  case (Cons e t)
  then show ?case by (cases e) (simp_all add: refreshes_def)
qed

lemma transport_no_resolve: "list_all is_transport t \<Longrightarrow> resolves t = 0"
proof (induction t)
  case Nil
  show ?case by (simp add: resolves_def)
next
  case (Cons e t)
  then show ?case by (cases e) (simp_all add: resolves_def)
qed

lemma transport_no_observation: "list_all is_transport t \<Longrightarrow> e \<in> set t \<Longrightarrow> \<not> is_observation e"
  by (cases e) (auto simp add: list_all_iff)

lemma bookmarks_fetchPage_trace:
  "\<exists>t. snd (bookmarks_fetchPage E includeRaw pageCount pageCursor h) = h @ Resolve ''Bookmarks'' # t
      \<and> list_all is_transport t
      \<and> (\<forall>req. retry_disciplined (answers_to req t))
      \<and> (\<forall>x \<in> set (https t). req_count (fst x) = Some pageCount)
      \<and> attempt_had404 (fst (bookmarks_fetchPage E includeRaw pageCount pageCursor h)) = saw_404 t"
proof -
  let ?qs = "fst (getBookmarksQueryIds E h)"
  let ?h0 = "h @ [Resolve ''Bookmarks'']"
  let ?mk = "bookmarks_request pageCount pageCursor"
  let ?tc = "timeline_candidates E ?mk ''bookmarks'' includeRaw ?qs None False ?h0"
  have q: "getBookmarksQueryIds E h = (?qs, ?h0)"
    by (simp add: getBookmarksQueryIds_def)
  have r: "bookmarks_fetchPage E includeRaw pageCount pageCursor h = (fst (fst ?tc), snd ?tc)"
    by (simp add: bookmarks_fetchPage_def getBookmarksQueryIds_def case_prod_beta)
  have "inj_on ?mk (set ?qs)"
    by (rule inj_on_subset [OF inj_bookmarks_request]) simp
  moreover have "distinct ?qs"
    by (simp add: getBookmarksQueryIds_def distinct_uniq)
  ultimately have d: "distinct (map ?mk ?qs)"
    by (simp add: distinct_map)
  obtain t where t: "snd ?tc = ?h0 @ t" and sw: "sweep_trace ?mk ?qs t"
    and f: "attempt_had404 (fst (fst ?tc)) = (False \<or> saw_404 t)"
    using timeline_candidates_trace [of E ?mk "''bookmarks''" includeRaw ?qs None False ?h0] by blast
  have c: "\<forall>x \<in> set (https t). req_count (fst x) = Some pageCount"
    using sw by (auto simp add: sweep_trace_def bookmarks_request_def)
  show ?thesis
    using t sw f d c by (intro exI [of _ t]) (simp add: r sweep_trace_def)
qed

lemma folder_fetchPage_trace:
  "\<exists>t. snd (folder_fetchPage E folderId includeRaw pageCount pageCursor h)
          = h @ Resolve ''BookmarkFolderTimeline'' # t
      \<and> list_all is_transport t
      \<and> (\<forall>req. retry_disciplined (answers_to req t))
      \<and> (\<forall>x \<in> set (https t). req_cursor (fst x) = (if truthy pageCursor then pageCursor else None))
      \<and> attempt_had404 (fst (folder_fetchPage E folderId includeRaw pageCount pageCursor h)) = saw_404 t"
proof -
  let ?qs = "fst (getBookmarkFolderQueryIds E h)"
  let ?h0 = "h @ [Resolve ''BookmarkFolderTimeline'']"
  let ?mk = "buildVariables folderId pageCount pageCursor"
  let ?a = "folder_tryOnce E includeRaw ?qs (?mk True) None False ?h0"
  let ?b = "folder_tryOnce E includeRaw ?qs (?mk False) (fst (snd (fst ?a))) (snd (snd (fst ?a))) (snd ?a)"
  let ?res = "folder_fetchPage E folderId includeRaw pageCount pageCursor h"
  have q: "getBookmarkFolderQueryIds E h = (?qs, ?h0)"
    by (simp add: getBookmarkFolderQueryIds_def)
  have dq: "distinct ?qs"
    by (simp add: getBookmarkFolderQueryIds_def distinct_uniq)
  have d: "distinct (map (?mk c) ?qs)" for c
  proof -
    have "inj_on (?mk c) (set ?qs)"
      by (rule inj_on_subset [OF inj_buildVariables]) simp
    then show ?thesis using dq by (simp add: distinct_map)
  qed
  obtain t1 where t1: "snd ?a = ?h0 @ t1" and sw1: "sweep_trace (?mk True) ?qs t1"
    and v1: "snd (snd (fst ?a)) = (False \<or> saw_404 t1)"
    and f1: "attempt_had404 (fst (fst ?a)) = (False \<or> saw_404 t1)"
    using timeline_candidates_trace [of E "?mk True" "''bookmark folder''" includeRaw ?qs None False ?h0]
    unfolding folder_tryOnce_def by blast
  obtain t2 where t2: "snd ?b = snd ?a @ t2" and sw2: "sweep_trace (?mk False) ?qs t2"
    and f2: "attempt_had404 (fst (fst ?b)) = (snd (snd (fst ?a)) \<or> saw_404 t2)"
    using timeline_candidates_trace [of E "?mk False" "''bookmark folder''" includeRaw ?qs
        "fst (snd (fst ?a))" "snd (snd (fst ?a))" "snd ?a"]
    unfolding folder_tryOnce_def by blast
  have cur: "\<forall>x \<in> set (https t). req_cursor (fst x) = (if truthy pageCursor then pageCursor else None)"
    if "sweep_trace (?mk c) ?qs t" for c t
    using that by (auto simp add: sweep_trace_def buildVariables_def)
  show ?thesis
  proof (cases "attempt_failed_with (fst (fst ?a)) count_marker")
    case False
    have r: "?res = (if attempt_failed_with (fst (fst ?a)) cursor_marker \<and> truthy pageCursor
                     then Failed ''Bookmark folder pagination rejected the cursor parameter''
                            (attempt_had404 (fst (fst ?a)))
                     else fst (fst ?a), snd ?a)"
      using False by (simp add: folder_fetchPage_def getBookmarkFolderQueryIds_def case_prod_beta)
    show ?thesis
      using t1 sw1 f1 d [of True] cur [OF sw1]
      by (intro exI [of _ t1]) (simp add: r sweep_trace_def)
  next
    case True
    have r: "?res = (if attempt_failed_with (fst (fst ?b)) cursor_marker \<and> truthy pageCursor
                     then Failed ''Bookmark folder pagination rejected the cursor parameter''
                            (attempt_had404 (fst (fst ?b)))
                     else fst (fst ?b), snd ?b)"
      using True by (simp add: folder_fetchPage_def getBookmarkFolderQueryIds_def case_prod_beta)
    have disc: "retry_disciplined (answers_to req (t1 @ t2))" for req
    proof (cases "req_count req")
      case None
      have "\<forall>x \<in> set (https t1). fst x \<in> {r. req_count r \<noteq> None}"
        using sw1 by (auto simp add: sweep_trace_def buildVariables_def)
      then have "answers_to req t1 = []"
        using None by (intro answers_to_other [of t1 "{r. req_count r \<noteq> None}"]) simp_all
      then show ?thesis using sw2 d [of False] by (simp add: sweep_trace_def)
    next
      case (Some n)
      have "\<forall>x \<in> set (https t2). fst x \<in> {r. req_count r = None}"
        using sw2 by (auto simp add: sweep_trace_def buildVariables_def)
      then have "answers_to req t2 = []"
        using Some by (intro answers_to_other [of t2 "{r. req_count r = None}"]) simp_all
      then show ?thesis using sw1 d [of True] by (simp add: sweep_trace_def)
    qed
    show ?thesis
      using t1 t2 sw1 sw2 v1 f2 disc cur [OF sw1] cur [OF sw2]
      by (intro exI [of _ "t1 @ t2"]) (auto simp add: r sweep_trace_def)
  qed
qed

lemma sweeping_bookmarks: "sweeping (bookmarks_fetchPage E includeRaw)"
  unfolding sweeping_def using bookmarks_fetchPage_trace [of E includeRaw] by blast

lemma sweeping_folder: "sweeping (folder_fetchPage E folderId includeRaw)"
  unfolding sweeping_def using folder_fetchPage_trace [of E folderId includeRaw] by blast

lemma fetchWithRefresh_cases:
  "fetchWithRefresh fetchPage pageCount pageCursor h =
     (if not_found_failure (fst (fetchPage pageCount pageCursor h))
      then (page_of (fst (fetchPage pageCount pageCursor
                            (refreshQueryIds (snd (fetchPage pageCount pageCursor h))))),
            snd (fetchPage pageCount pageCursor
                   (refreshQueryIds (snd (fetchPage pageCount pageCursor h)))))
      else (page_of (fst (fetchPage pageCount pageCursor h)), snd (fetchPage pageCount pageCursor h)))"
proof (cases "fetchPage pageCount pageCursor h")
  case (Pair a h1)
  show ?thesis
  proof (cases a)
    case (Got ts c f)
    then show ?thesis using Pair by (simp add: fetchWithRefresh_def)
  next
    case (Failed e f)
    show ?thesis
    proof (cases "fetchPage pageCount pageCursor (refreshQueryIds h1)")
      case second: (Pair a2 h2)
      then show ?thesis using Pair Failed
        by (cases a2) (simp_all add: fetchWithRefresh_def)
    qed
  qed
qed

lemma fetchWithRefresh_trace:
  assumes "sweeping fetchPage"
  shows "\<exists>t. snd (fetchWithRefresh fetchPage pageCount pageCursor h) = h @ t
           \<and> (\<forall>e \<in> set t. \<not> is_observation e)
           \<and> refreshes t = (if not_found_failure (fst (fetchPage pageCount pageCursor h)) then 1 else 0)
           \<and> resolves t = 1 + refreshes t"
proof -
  let ?h1 = "snd (fetchPage pageCount pageCursor h)"
  obtain o1 t1 where t1: "?h1 = h @ Resolve o1 # t1" and tr1: "list_all is_transport t1"
    using assms unfolding sweeping_def by blast
  obtain o2 t2 where t2: "snd (fetchPage pageCount pageCursor (refreshQueryIds ?h1))
                            = refreshQueryIds ?h1 @ Resolve o2 # t2"
    and tr2: "list_all is_transport t2"
    using assms unfolding sweeping_def by blast
  have n1: "\<forall>e \<in> set t1. \<not> is_observation e" and n2: "\<forall>e \<in> set t2. \<not> is_observation e"
    using transport_no_observation [OF tr1] transport_no_observation [OF tr2] by blast+
  show ?thesis
  proof (cases "not_found_failure (fst (fetchPage pageCount pageCursor h))")
    case True
    show ?thesis
      apply (rule exI [of _ "Resolve o1 # t1 @ Refresh # Resolve o2 # t2"])
      using True t1 t2 n1 n2 transport_no_refresh [OF tr1] transport_no_refresh [OF tr2]
        transport_no_resolve [OF tr1] transport_no_resolve [OF tr2]
      by (auto simp add: fetchWithRefresh_cases refreshQueryIds_def refreshes_def resolves_def)
  next
    case False
    show ?thesis
      apply (rule exI [of _ "Resolve o1 # t1"])
      using False t1 n1 transport_no_refresh [OF tr1] transport_no_resolve [OF tr1]
      by (simp add: fetchWithRefresh_cases refreshes_def resolves_def)
  qed
qed

section \<open>Histories of the likes fetch\<close>

lemma likes_candidates_step:
  "likes_candidates E mk includeRaw (q # rest) lastError had404 h =
     (case likes_verdict E includeRaw (fetchWithTimeout E h (mk q)) had404 of
        Inl a \<Rightarrow> (a, h @ [Http (mk q) (fetchWithTimeout E h (mk q))])
      | Inr v \<Rightarrow> likes_candidates E mk includeRaw rest (fst v) (snd v)
                  (h @ [Http (mk q) (fetchWithTimeout E h (mk q))]))"
proof (cases "fetchWithTimeout E h (mk q)")
  case (Inl thrown)
  then show ?thesis
    by (simp add: likes_candidates.simps likes_verdict_def send_def)
next
  case (Inr response)
  then show ?thesis
    by (simp add: likes_candidates.simps likes_verdict_def send_def split: sum.split)
qed

lemma likes_verdict_continue:
  "likes_verdict E includeRaw out had404 = Inr v \<Longrightarrow> snd v = (had404 \<or> is_404 out)"
  by (auto simp add: likes_verdict_def split: sum.splits if_splits)

lemma likes_verdict_final:
  "likes_verdict E includeRaw out had404 = Inl a \<Longrightarrow> likes_had404 a = had404 \<and> \<not> is_404 out"
  by (auto simp add: likes_verdict_def split: sum.splits if_splits)

lemma likes_candidates_trace:
  "\<exists>t. snd (likes_candidates E mk includeRaw qs lastError had404 h) = h @ t
      \<and> list_all is_transport t
      \<and> map fst (https t) = map mk (take (length (https t)) qs)
      \<and> likes_had404 (fst (likes_candidates E mk includeRaw qs lastError had404 h))
          = (had404 \<or> saw_404 t)"
proof (induction qs arbitrary: lastError had404 h)
  case Nil
  show ?case by (intro exI [of _ "[]"]) (simp add: saw_404_def likes_candidates.simps)
next
  case (Cons q rest)
  let ?out = "fetchWithTimeout E h (mk q)"
  let ?h1 = "h @ [Http (mk q) ?out]"
  show ?case
  proof (cases "likes_verdict E includeRaw ?out had404")
    case (Inl a)
    then show ?thesis using likes_verdict_final [OF Inl]
      by (intro exI [of _ "[Http (mk q) ?out]"]) (simp add: likes_candidates_step saw_404_def)
  next
    case (Inr v)
    obtain t2 where
      t2: "snd (likes_candidates E mk includeRaw rest (fst v) (snd v) ?h1) = ?h1 @ t2"
      and tr: "list_all is_transport t2"
      and rq: "map fst (https t2) = map mk (take (length (https t2)) rest)"
      and f: "likes_had404 (fst (likes_candidates E mk includeRaw rest (fst v) (snd v) ?h1))
                = (snd v \<or> saw_404 t2)"
      using Cons.IH [of "fst v" "snd v" ?h1] by blast
    show ?thesis using Inr t2 tr rq f likes_verdict_continue [OF Inr]
      by (intro exI [of _ "Http (mk q) ?out # t2"]) (simp add: likes_candidates_step saw_404_def)
  qed
qed

lemma inj_likes_request: "inj (likes_request userId count)"
  by (rule injI) (simp add: likes_request_def)

lemma likes_tryOnce_trace:
  "\<exists>t. snd (likes_tryOnce E mk includeRaw h) = h @ Resolve ''Likes'' # t
      \<and> list_all is_transport t
      \<and> map fst (https t) = map mk (take (length (https t)) (fst (getLikesQueryIds E h)))
      \<and> likes_had404 (fst (likes_tryOnce E mk includeRaw h)) = saw_404 t"
  using likes_candidates_trace [of E mk includeRaw "fst (getLikesQueryIds E h)" None False
      "h @ [Resolve ''Likes'']"]
  by (simp add: likes_tryOnce_def getLikesQueryIds_def case_prod_beta)

lemma getLikes_unknown_user:
  assumes "\<not> user_known (getCurrentUser E h)"
  shows "getLikes E count options h =
           (failed (case user_error (getCurrentUser E h) of
                      Some e \<Rightarrow> e | None \<Rightarrow> ''Could not determine current user''),
            h @ [CurrentUser])"
  using assms by (auto simp add: getLikes_def user_known_def Let_def)

lemma getLikes_known_user:
  assumes "user_success (getCurrentUser E h)" and "user_id (getCurrentUser E h) = Some userId"
  shows "getLikes E count options h =
     (if likes_not_found (fst (likes_tryOnce E (likes_request userId count) (includeRaw_of options)
                                 (h @ [CurrentUser])))
      then (likes_result (fst (likes_tryOnce E (likes_request userId count) (includeRaw_of options)
              (refreshQueryIds (snd (likes_tryOnce E (likes_request userId count)
                 (includeRaw_of options) (h @ [CurrentUser])))))),
            snd (likes_tryOnce E (likes_request userId count) (includeRaw_of options)
              (refreshQueryIds (snd (likes_tryOnce E (likes_request userId count)
                 (includeRaw_of options) (h @ [CurrentUser]))))))
      else (likes_result (fst (likes_tryOnce E (likes_request userId count) (includeRaw_of options)
                                 (h @ [CurrentUser]))),
            snd (likes_tryOnce E (likes_request userId count) (includeRaw_of options)
                                 (h @ [CurrentUser]))))"
proof (cases "likes_tryOnce E (likes_request userId count) (includeRaw_of options) (h @ [CurrentUser])")
  case (Pair a h1)
  show ?thesis
  proof (cases a)
    case (LikesGot ts f)
    then show ?thesis using Pair assms by (simp add: getLikes_def Let_def)
  next
    case (LikesFailed e f)
    show ?thesis
    proof (cases "likes_tryOnce E (likes_request userId count) (includeRaw_of options) (refreshQueryIds h1)")
      case second: (Pair a2 h2)
      then show ?thesis using Pair LikesFailed assms
        by (cases a2) (simp_all add: getLikes_def Let_def)
    qed
  qed
qed

lemma getLikes_known_trace:
  assumes "user_success (getCurrentUser E h)" and "user_id (getCurrentUser E h) = Some userId"
  shows "\<exists>t. snd (getLikes E count options h) = h @ CurrentUser # t
           \<and> refreshes t = (if likes_not_found (fst (likes_tryOnce E (likes_request userId count)
                                  (includeRaw_of options) (h @ [CurrentUser]))) then 1 else 0)
           \<and> resolves t = 1 + refreshes t"
proof -
  let ?mk = "likes_request userId count"
  let ?raw = "includeRaw_of options"
  let ?h0 = "h @ [CurrentUser]"
  let ?h1 = "snd (likes_tryOnce E ?mk ?raw ?h0)"
  obtain t1 where t1: "?h1 = ?h0 @ Resolve ''Likes'' # t1" and tr1: "list_all is_transport t1"
    using likes_tryOnce_trace [of E ?mk ?raw ?h0] by blast
  obtain t2 where t2: "snd (likes_tryOnce E ?mk ?raw (refreshQueryIds ?h1))
                         = refreshQueryIds ?h1 @ Resolve ''Likes'' # t2"
    and tr2: "list_all is_transport t2"
    using likes_tryOnce_trace [of E ?mk ?raw "refreshQueryIds ?h1"] by blast
  show ?thesis
  proof (cases "likes_not_found (fst (likes_tryOnce E ?mk ?raw ?h0))")
    case True
    show ?thesis
      apply (rule exI [of _ "Resolve ''Likes'' # t1 @ Refresh # Resolve ''Likes'' # t2"])
      using True t1 t2 transport_no_refresh [OF tr1] transport_no_refresh [OF tr2]
        transport_no_resolve [OF tr1] transport_no_resolve [OF tr2]
      by (simp add: getLikes_known_user [OF assms] refreshQueryIds_def refreshes_def resolves_def)
  next
    case False
    show ?thesis
      apply (rule exI [of _ "Resolve ''Likes'' # t1"])
      using False t1 transport_no_refresh [OF tr1] transport_no_resolve [OF tr1]
      by (simp add: getLikes_known_user [OF assms] refreshes_def resolves_def)
  qed
qed

lemma getLikes_starts_with_lookup:
  "\<exists>t. snd (getLikes E count options h) = h @ CurrentUser # t"
proof (cases "user_known (getCurrentUser E h)")
  case False
  then show ?thesis by (simp add: getLikes_unknown_user)
next
  case True
  then obtain userId where
    "user_success (getCurrentUser E h)" "user_id (getCurrentUser E h) = Some userId"
    by (auto simp add: user_known_def)
  then show ?thesis using getLikes_known_trace [of E h userId count options] by blast
qed

section \<open>An invariant of the pagination loop\<close>

lemma served_append [simp]: "served (t @ u) = served t @ served u"
  by (simp add: served_def)

lemma page_calls_append [simp]: "page_calls (t @ u) = page_calls t @ page_calls u"
  by (simp add: page_calls_def)

lemma served_Cons [simp]: "served (e # t) = page_done_of e @ served t"
  by (simp add: served_def)

lemma page_calls_Cons [simp]: "page_calls (e # t) = page_call_of e @ page_calls t"
  by (simp add: page_calls_def)

lemma served_Nil [simp]: "served [] = []"
  by (simp add: served_def)

lemma page_calls_Nil [simp]: "page_calls [] = []"
  by (simp add: page_calls_def)



lemma ids_append [simp]: "ids (xs @ ys) = ids xs \<union> ids ys"
  by (auto simp add: ids_def)

lemma ids_Nil [simp]: "ids [] = {}"
  by (simp add: ids_def)

lemma ids_Cons [simp]: "ids (x # xs) = insert (tweet_id x) (ids xs)"
  by (simp add: ids_def)

lemma mergePage_props:
  assumes "seen = ids ts" and "distinct (map tweet_id ts)"
  shows "fst (mergePage l pts seen ts) = ids (snd (mergePage l pts seen ts))
       \<and> distinct (map tweet_id (snd (mergePage l pts seen ts)))
       \<and> ids ts \<subseteq> ids (snd (mergePage l pts seen ts))
       \<and> ids (snd (mergePage l pts seen ts)) \<subseteq> ids ts \<union> ids pts
       \<and> (\<exists>new. snd (mergePage l pts seen ts) = ts @ new)
       \<and> (\<not> limit_reached (snd (mergePage l pts seen ts)) l \<longrightarrow>
            ids pts \<subseteq> ids (snd (mergePage l pts seen ts)))
       \<and> (\<forall>N. l = Finite N \<longrightarrow> int (length ts) < N \<longrightarrow>
            int (length (snd (mergePage l pts seen ts))) \<le> N)"
  using assms
proof (induction pts arbitrary: seen ts)
  case Nil
  then show ?case by simp
next
  case (Cons p pts)
  show ?case
  proof (cases "tweet_id p \<in> seen")
    case True
    then show ?thesis using Cons.IH [OF Cons.prems] Cons.prems by auto
  next
    case False
    let ?ts = "ts @ [p]"
    let ?seen = "insert (tweet_id p) seen"
    have s: "?seen = ids ?ts" using Cons.prems by auto
    have d: "distinct (map tweet_id ?ts)" using Cons.prems False by (auto simp add: ids_def)
    show ?thesis
    proof (cases "\<not> unlimited l \<and> limit_reached ?ts l")
      case True
      then show ?thesis using False s d Cons.prems
        by (auto simp add: limit_reached_def split: limit.splits)
    next
      case stop: False
      have m: "mergePage l (p # pts) seen ts = mergePage l pts ?seen ?ts"
        using False stop by auto
      show ?thesis using Cons.IH [OF s d] stop unfolding m
        by (auto simp add: limit_reached_def unlimited_def split: limit.splits)
    qed
  qed
qed




section \<open>One iteration of the pagination loop\<close>


lemma paged_loop_error:
  assumes "unlimited l \<or> below_limit ts l"
    and "fetch (pageCount_for l ts) cursor (h @ [PageCall (length ts) (pageCount_for l ts) cursor])
           = (PageError e, hf)"
  shows "paged_loop fetch l maxPages seen ts cursor pagesFetched h = Some (failed e, hf)"
  using assms by (subst paged_loop.simps) simp

lemma paged_loop_page:
  assumes "unlimited l \<or> below_limit ts l"
    and "fetch (pageCount_for l ts) cursor (h @ [PageCall (length ts) (pageCount_for l ts) cursor])
           = (Page pts pc f, hf)"
  shows "paged_loop fetch l maxPages seen ts cursor pagesFetched h =
           (if \<not> truthy pc \<or> pc = cursor \<or> pts = [] \<or> maxPages_reached maxPages (pagesFetched + 1)
            then Some (succeeded (snd (mergePage l pts seen ts)), hf @ [PageDone pts pc])
            else paged_loop fetch l maxPages (fst (mergePage l pts seen ts))
                   (snd (mergePage l pts seen ts)) pc (pagesFetched + 1) (hf @ [PageDone pts pc]))"
  using assms by (subst paged_loop.simps) (simp add: case_prod_beta)

lemma paged_loop_shape:
  assumes "paged_loop fetch l maxPages seen ts cursor pagesFetched h = Some y"
  shows "(\<exists>out. fst y = succeeded out) \<or> (\<exists>e. fst y = failed e)"
  using assms
proof (induction rule: paged_loop.raw_induct [rotated 1, consumes 1, case_names step])
  case (step loop fetch l maxPages seen ts cursor pagesFetched h y)
  show ?case
  proof (cases "unlimited l \<or> below_limit ts l")
    case False
    then show ?thesis using step.hyps by auto
  next
    case True
    let ?f = "fetch (pageCount_for l ts) cursor (h @ [PageCall (length ts) (pageCount_for l ts) cursor])"
    show ?thesis
    proof (cases "fst ?f")
      case (PageError e)
      then have "y = (failed e, snd ?f)" using step.hyps True by (cases ?f) auto
      then show ?thesis by auto
    next
      case (Page pts pc f)
      have f: "?f = (Page pts pc f, snd ?f)" using Page by (cases ?f) simp
      let ?h2 = "snd ?f @ [PageDone pts pc]"
      have body: "(case mergePage l pts seen ts of
                     (seen', ts') \<Rightarrow>
                       if \<not> truthy pc \<or> pc = cursor \<or> pts = []
                       then Some (succeeded ts', ?h2)
                       else if maxPages_reached maxPages (pagesFetched + 1)
                       then Some (succeeded ts', ?h2)
                       else loop fetch l maxPages seen' ts' pc (pagesFetched + 1) ?h2) = Some y"
        using step.hyps True by (subst (asm) f) auto
      show ?thesis
      proof (cases "\<not> truthy pc \<or> pc = cursor \<or> pts = [] \<or> maxPages_reached maxPages (pagesFetched + 1)")
        case stop: True
        then have "y = (succeeded (snd (mergePage l pts seen ts)), ?h2)"
          using body by (auto simp add: case_prod_beta split: if_splits)
        then show ?thesis by auto
      next
        case go: False
        then have "loop fetch l maxPages (fst (mergePage l pts seen ts)) (snd (mergePage l pts seen ts))
                     pc (pagesFetched + 1) ?h2 = Some y"
          using body by (auto simp add: case_prod_beta split: if_splits)
        then show ?thesis by (rule step.IH)
      qed
    qed
  qed
qed




section \<open>Running the example environments\<close>

lemma fetchWithRetry_final:
  assumes "\<not> recoverable (fetchWithTimeout E h url)"
  shows "fetchWithRetry E url h
           = (fetchWithTimeout E h url, h @ [Http url (fetchWithTimeout E h url)])"
  using assms
  by (cases "fetchWithTimeout E h url")
     (simp_all add: fetchWithRetry_def fetchWithRetry_from.simps [of _ 0] send_def recoverable_def)

lemma demo_env_sel:
  "fetchWithTimeout (demo_env transport u) = transport"
  "getQueryId (demo_env transport u) h opn = ''primary''"
  "getCurrentUser (demo_env transport u) h = u"
  "mathRandom (demo_env transport u) h = 1 / 2"
  "parseTweetsFromInstructions (demo_env transport u) i raw = (case i of None \<Rightarrow> [] | Some p \<Rightarrow> fst p)"
  "extractCursorFromInstructions (demo_env transport u) i = (case i of None \<Rightarrow> None | Some p \<Rightarrow> snd p)"
  by (simp_all add: demo_env_def)

lemmas demo_simps = demo_env_def page_response_def plain_response_def recoverable_def retryable_def
  ok_def has_errors_def error_messages_def verdict_def bookmarks_fetchPage_def getBookmarksQueryIds_def
  uniq_def timeline_candidates_step timeline_candidates.simps(1) fetchWithRetry_final fetchWithRefresh_def
  refreshQueryIds_def truthy_def Let_def

lemma page_one_facts: "length page_one = 20" "page_one \<noteq> []" "distinct (map tweet_id page_one)"
  by (simp_all add: page_one_def tw_def)


lemma merge_one: "mergePage NonFinite page_one {} [] = (ids page_one, page_one)"
proof -
  have "snd (mergePage NonFinite page_one {} []) = page_one"
    by (simp add: page_one_def tw_def unlimited_def)
  then show ?thesis
    using mergePage_props [of "{}" "[]" NonFinite page_one]
    by (simp add: prod_eq_iff)
qed

lemma merge_dups: "mergePage NonFinite page_dups (ids page_one) page_one = (ids page_one, page_one)"
proof -
  have "snd (mergePage NonFinite page_dups (ids page_one) page_one) = page_one"
    by (simp add: page_one_def page_dups_def tw_def unlimited_def ids_def)
  then show ?thesis
    using mergePage_props [of "ids page_one" page_one NonFinite page_dups] page_one_facts(3)
    by (simp add: prod_eq_iff)
qed

lemma echo_fetch:
  "fetchWithRefresh (bookmarks_fetchPage (demo_env echo_transport alice) False) pageCount cur h =
     (if truthy cur
      then (Page page_dups (Some ''c1'') False,
            h @ [Resolve ''Bookmarks'',
                 Http (bookmarks_request pageCount cur ''primary'') (Inr (page_response page_dups (Some ''c1'')))])
      else (Page page_one (Some ''c1'') False,
            h @ [Resolve ''Bookmarks'',
                 Http (bookmarks_request pageCount cur ''primary'') (Inr (page_response page_one (Some ''c1'')))]))"
  by (simp add: demo_simps echo_transport_def bookmarks_request_def)

lemma echo_second_page:
  "paged_loop (fetchWithRefresh (bookmarks_fetchPage (demo_env echo_transport alice) False)) NonFinite None
     (ids page_one) page_one (Some ''c1'') 1 h =
   Some (succeeded page_one,
         h @ [PageCall 20 20 (Some ''c1''), Resolve ''Bookmarks'',
              Http (bookmarks_request 20 (Some ''c1'') ''primary'') (Inr (page_response page_dups (Some ''c1''))),
              PageDone page_dups (Some ''c1'')])"
  by (subst paged_loop_page [where pts = page_dups and pc = "Some ''c1''" and f = False])
     (simp_all add: unlimited_def pageCount_for_def pageSize_def echo_fetch truthy_def merge_dups page_one_facts)

lemma echo_run:
  "getAllBookmarks (demo_env echo_transport alice) no_options [] =
     Some (succeeded page_one,
       [PageCall 0 20 None, Resolve ''Bookmarks'',
        Http (bookmarks_request 20 None ''primary'') (Inr (page_response page_one (Some ''c1''))),
        PageDone page_one (Some ''c1''),
        PageCall 20 20 (Some ''c1''), Resolve ''Bookmarks'',
        Http (bookmarks_request 20 (Some ''c1'') ''primary'') (Inr (page_response page_dups (Some ''c1''))),
        PageDone page_dups (Some ''c1'')])"
  unfolding getAllBookmarks_def getBookmarksPaged_def
  by (subst paged_loop_page [where pts = page_one and pc = "Some ''c1''" and f = False])
     (simp_all add: unlimited_def pageCount_for_def pageSize_def echo_fetch truthy_def merge_one
        page_one_facts maxPages_reached_def no_options_def includeRaw_of_def echo_second_page)

section \<open>Claims about the pagination driver\<close>










lemma status_strings:
  "string_of_nat 404 = ''404''" "string_of_nat 500 = ''500''" "string_of_nat 503 = ''503''"
  "string_of_nat 429 = ''429''" "string_of_nat 400 = ''400''" "string_of_nat 403 = ''403''"
  by (simp_all add: string_of_nat.simps digit_char_def)

lemma broken_fetch:
  "fetchWithRefresh (bookmarks_fetchPage (demo_env broken_transport alice) False) pageCount cur h =
     (if truthy cur
      then (PageError ''HTTP 403: boom'',
            h @ [Resolve ''Bookmarks'',
                 Http (bookmarks_request pageCount cur ''primary'') (Inr (plain_response 403 ''boom''))])
      else (Page page_one (Some ''c1'') False,
            h @ [Resolve ''Bookmarks'',
                 Http (bookmarks_request pageCount cur ''primary'') (Inr (page_response page_one (Some ''c1'')))]))"
  by (simp add: demo_simps broken_transport_def bookmarks_request_def status_strings)

text \<open>
  C7. If the page fetch of an iteration fails, the pagination loop returns at once the
  failure with the error of that fetch and without a tweet list, whatever had been
  collected. Whenever one of the two paged methods returns a failure, the result has an
  error and no tweets.
\<close>

theorem failed_page_discards_items:
  assumes "unlimited l \<or> below_limit ts l"
    and "fetch (pageCount_for l ts) cursor (h @ [PageCall (length ts) (pageCount_for l ts) cursor])
           = (PageError e, h1)"
  shows "paged_loop fetch l maxPages seen ts cursor pagesFetched h
           = Some (\<lparr>success = False, tweets = None, error = Some e\<rparr>, h1)
       \<and> (getBookmarksPaged E l' options h' = Some (r, hr) \<and> \<not> success r \<longrightarrow>
             tweets r = None \<and> error r \<noteq> None)
       \<and> (getBookmarkFolderTimelinePaged E folderId l' options h' = Some (r, hr) \<and> \<not> success r \<longrightarrow>
             tweets r = None \<and> error r \<noteq> None)"
proof (intro conjI impI)
  show "paged_loop fetch l maxPages seen ts cursor pagesFetched h
          = Some (\<lparr>success = False, tweets = None, error = Some e\<rparr>, h1)"
    using paged_loop_error [where fetch = fetch and l = l and ts = ts and cursor = cursor and h = h,
        OF assms] by (simp add: failed_def)
next
  assume "getBookmarksPaged E l' options h' = Some (r, hr) \<and> \<not> success r"
  then show "tweets r = None" and "error r \<noteq> None"
    using paged_loop_shape [of "fetchWithRefresh (bookmarks_fetchPage E (includeRaw_of options))" l'
        "opt_maxPages options" "{}" "[]" None 0 h' "(r, hr)"]
    by (auto simp add: getBookmarksPaged_def succeeded_def failed_def)
next
  assume "getBookmarkFolderTimelinePaged E folderId l' options h' = Some (r, hr) \<and> \<not> success r"
  then show "tweets r = None" and "error r \<noteq> None"
    using paged_loop_shape [of "fetchWithRefresh (folder_fetchPage E folderId (includeRaw_of options))" l'
        "opt_maxPages options" "{}" "[]" None 0 h' "(r, hr)"]
    by (auto simp add: getBookmarkFolderTimelinePaged_def succeeded_def failed_def)
qed

theorem failed_page_discards_items_witness:
  "getAllBookmarks (demo_env broken_transport alice) no_options [] =
     Some (\<lparr>success = False, tweets = None, error = Some ''HTTP 403: boom''\<rparr>,
       [PageCall 0 20 None, Resolve ''Bookmarks'',
        Http (bookmarks_request 20 None ''primary'') (Inr (page_response page_one (Some ''c1''))),
        PageDone page_one (Some ''c1''),
        PageCall 20 20 (Some ''c1''), Resolve ''Bookmarks'',
        Http (bookmarks_request 20 (Some ''c1'') ''primary'') (Inr (plain_response 403 ''boom''))])
   \<and> length page_one = 20"
proof -
  let ?F = "fetchWithRefresh (bookmarks_fetchPage (demo_env broken_transport alice) False)"
  let ?h1 = "[PageCall 0 20 None, Resolve ''Bookmarks'',
              Http (bookmarks_request 20 None ''primary'') (Inr (page_response page_one (Some ''c1''))),
              PageDone page_one (Some ''c1'')]"
  let ?h2 = "?h1 @ [PageCall 20 20 (Some ''c1''), Resolve ''Bookmarks'',
                    Http (bookmarks_request 20 (Some ''c1'') ''primary'')
                      (Inr (plain_response 403 ''boom''))]"
  have c: "unlimited NonFinite \<or> below_limit page_one NonFinite"
    by (simp add: unlimited_def)
  have f: "?F (pageCount_for NonFinite page_one) (Some ''c1'')
             (?h1 @ [PageCall (length page_one) (pageCount_for NonFinite page_one) (Some ''c1'')])
           = (PageError ''HTTP 403: boom'', ?h2)"
    by (simp add: broken_fetch truthy_def pageCount_for_def pageSize_def page_one_facts)
  have second:
    "paged_loop ?F NonFinite None (ids page_one) page_one (Some ''c1'') 1 ?h1
       = Some (\<lparr>success = False, tweets = None, error = Some ''HTTP 403: boom''\<rparr>, ?h2)"
    using failed_page_discards_items [where fetch = ?F and l = NonFinite and ts = page_one
        and cursor = "Some ''c1''" and h = ?h1, OF c f]
    by blast
  have "getAllBookmarks (demo_env broken_transport alice) no_options [] =
          paged_loop ?F NonFinite None (ids page_one) page_one (Some ''c1'') 1 ?h1"
    unfolding getAllBookmarks_def getBookmarksPaged_def
    by (subst paged_loop_page [where pts = page_one and pc = "Some ''c1''" and f = False
          and hf = "[PageCall 0 20 None, Resolve ''Bookmarks'',
                     Http (bookmarks_request 20 None ''primary'')
                       (Inr (page_response page_one (Some ''c1'')))]"])
       (simp_all add: unlimited_def pageCount_for_def pageSize_def broken_fetch truthy_def merge_one
          page_one_facts maxPages_reached_def no_options_def includeRaw_of_def)
  then show ?thesis
    using second by (simp add: page_one_facts)
qed

section \<open>Claims about the user lookup of likes\<close>

text \<open>
  C10. \<^verbatim>\<open>getLikes\<close> asks for the current user before anything else. If the lookup
  does not succeed or gives no user, it returns the failure with the lookup's error, or
  with \<open>Could not determine current user\<close> when the lookup gave none, and the lookup is
  the only thing it did: no request was sent.
\<close>

theorem getLikes_needs_current_user:
  "(\<exists>t. snd (getLikes E count options h) = h @ CurrentUser # t)
   \<and> (\<not> user_success (getCurrentUser E h) \<or> user_id (getCurrentUser E h) = None \<longrightarrow>
        getLikes E count options h =
          (\<lparr>success = False, tweets = None,
            error = Some (case user_error (getCurrentUser E h) of
                            Some e \<Rightarrow> e | None \<Rightarrow> ''Could not determine current user'')\<rparr>,
           h @ [CurrentUser])
        \<and> https (since h (snd (getLikes E count options h))) = [])"
proof (intro conjI impI)
  show "\<exists>t. snd (getLikes E count options h) = h @ CurrentUser # t"
    by (rule getLikes_starts_with_lookup)
next
  assume "\<not> user_success (getCurrentUser E h) \<or> user_id (getCurrentUser E h) = None"
  then have u: "\<not> user_known (getCurrentUser E h)" by (auto simp add: user_known_def)
  show "getLikes E count options h =
          (\<lparr>success = False, tweets = None,
            error = Some (case user_error (getCurrentUser E h) of
                            Some e \<Rightarrow> e | None \<Rightarrow> ''Could not determine current user'')\<rparr>,
           h @ [CurrentUser])"
    by (simp add: getLikes_unknown_user [OF u] failed_def)
  show "https (since h (snd (getLikes E count options h))) = []"
    by (simp add: getLikes_unknown_user [OF u])
qed

theorem getLikes_needs_current_user_witness:
  "getLikes (demo_env busy_transport nobody) 20 no_options []
     = (\<lparr>success = False, tweets = None, error = Some ''Unauthorized''\<rparr>, [CurrentUser])
   \<and> getLikes (demo_env busy_transport (nobody\<lparr>user_error := None\<rparr>)) 20 no_options []
     = (\<lparr>success = False, tweets = None, error = Some ''Could not determine current user''\<rparr>,
        [CurrentUser])
   \<and> getLikes (demo_env busy_transport (alice\<lparr>user_id := None\<rparr>)) 20 no_options []
     = (\<lparr>success = False, tweets = None, error = Some ''Could not determine current user''\<rparr>,
        [CurrentUser])"
  using getLikes_needs_current_user [of "demo_env busy_transport nobody" 20 no_options "[]"]
    getLikes_needs_current_user [of "demo_env busy_transport (nobody\<lparr>user_error := None\<rparr>)" 20 no_options "[]"]
    getLikes_needs_current_user [of "demo_env busy_transport (alice\<lparr>user_id := None\<rparr>)" 20 no_options "[]"]
  by (simp add: demo_env_def nobody_def alice_def)

section \<open>Claims about the refresh of the query ids\<close>

lemma refreshes_fetchWithRefresh:
  assumes "sweeping fetchPage"
  shows "refreshes (since h (snd (fetchWithRefresh fetchPage pageCount pageCursor h)))
           = (if not_found_failure (fst (fetchPage pageCount pageCursor h)) then 1 else 0)"
proof -
  obtain t where "snd (fetchWithRefresh fetchPage pageCount pageCursor h) = h @ t"
    and "refreshes t = (if not_found_failure (fst (fetchPage pageCount pageCursor h)) then 1 else 0)"
    using fetchWithRefresh_trace [OF assms, of pageCount pageCursor h] by blast
  then show ?thesis by simp
qed

lemma refresh_cycle:
  assumes "sweeping fetchPage"
  shows "(let first = fetchPage pageCount pageCursor h;
              second = fetchPage pageCount pageCursor (refreshQueryIds (snd first));
              r = fetchWithRefresh fetchPage pageCount pageCursor h
          in if not_found_failure (fst first)
             then r = (page_of (fst second), snd second)
                  \<and> refreshes (since h (snd r)) = 1 \<and> resolves (since h (snd r)) = 2
             else r = (page_of (fst first), snd first)
                  \<and> refreshes (since h (snd r)) = 0 \<and> resolves (since h (snd r)) = 1)"
proof -
  obtain t where t: "snd (fetchWithRefresh fetchPage pageCount pageCursor h) = h @ t"
    and r: "refreshes t = (if not_found_failure (fst (fetchPage pageCount pageCursor h)) then 1 else 0)"
    and s: "resolves t = 1 + refreshes t"
    using fetchWithRefresh_trace [OF assms, of pageCount pageCursor h] by blast
  have e: "since h (snd (fetchWithRefresh fetchPage pageCount pageCursor h)) = t"
    using t by simp
  show ?thesis
  proof (cases "not_found_failure (fst (fetchPage pageCount pageCursor h))")
    case True
    then have "fetchWithRefresh fetchPage pageCount pageCursor h
                 = (page_of (fst (fetchPage pageCount pageCursor
                                    (refreshQueryIds (snd (fetchPage pageCount pageCursor h))))),
                    snd (fetchPage pageCount pageCursor
                           (refreshQueryIds (snd (fetchPage pageCount pageCursor h)))))"
      by (simp add: fetchWithRefresh_cases [of fetchPage pageCount pageCursor h])
    then show ?thesis using True e r s by (simp add: Let_def)
  next
    case False
    then have "fetchWithRefresh fetchPage pageCount pageCursor h
                 = (page_of (fst (fetchPage pageCount pageCursor h)),
                    snd (fetchPage pageCount pageCursor h))"
      by (simp add: fetchWithRefresh_cases [of fetchPage pageCount pageCursor h])
    then show ?thesis using False e r s by (simp add: Let_def)
  qed
qed

lemma bookmark_candidates:
  "fst (getBookmarksQueryIds (demo_env transport u) h)
     = [''primary'', ''RV1g3b8n_SGOHwkqKYSCFw'', ''tmd4ifV8RHltzn8ymGg1aw'']"
  by (simp add: getBookmarksQueryIds_def demo_env_def uniq_def)

lemma stale_first:
  "bookmarks_fetchPage (demo_env stale_transport alice) False 20 None [] =
     (Failed ''HTTP 404'' True,
      [Resolve ''Bookmarks'',
       Http (bookmarks_request 20 None ''primary'') (Inr (plain_response 404 [])),
       Http (bookmarks_request 20 None ''RV1g3b8n_SGOHwkqKYSCFw'') (Inr (plain_response 404 [])),
       Http (bookmarks_request 20 None ''tmd4ifV8RHltzn8ymGg1aw'') (Inr (plain_response 404 []))])"
  by (simp add: demo_simps stale_transport_def status_strings)

lemma stale_second:
  "bookmarks_fetchPage (demo_env stale_transport alice) False 20 None
     (refreshQueryIds
       [Resolve ''Bookmarks'',
        Http (bookmarks_request 20 None ''primary'') (Inr (plain_response 404 [])),
        Http (bookmarks_request 20 None ''RV1g3b8n_SGOHwkqKYSCFw'') (Inr (plain_response 404 [])),
        Http (bookmarks_request 20 None ''tmd4ifV8RHltzn8ymGg1aw'') (Inr (plain_response 404 []))]) =
     (Got page_dups None False,
      [Resolve ''Bookmarks'',
       Http (bookmarks_request 20 None ''primary'') (Inr (plain_response 404 [])),
       Http (bookmarks_request 20 None ''RV1g3b8n_SGOHwkqKYSCFw'') (Inr (plain_response 404 [])),
       Http (bookmarks_request 20 None ''tmd4ifV8RHltzn8ymGg1aw'') (Inr (plain_response 404 [])),
       Refresh, Resolve ''Bookmarks'',
       Http (bookmarks_request 20 None ''primary'') (Inr (page_response page_dups None))])"
  by (simp add: demo_simps stale_transport_def status_strings)

text \<open>
  C3. \<^verbatim>\<open>fetchWithRefresh\<close> runs the page fetch over the candidates once. If and only
  if that attempt is a failure with the not-found flag, it refreshes the query ids and runs
  the page fetch once more, and returns the second attempt, success or failure; otherwise
  it returns the first. So one call refreshes at most once and resolves the candidates
  once or twice. The same holds for the two bookmark timelines and for \<^verbatim>\<open>getLikes\<close>
  once the user is known.
\<close>

theorem refresh_at_most_once:
  "(let first = bookmarks_fetchPage E includeRaw pageCount pageCursor h;
        second = bookmarks_fetchPage E includeRaw pageCount pageCursor (refreshQueryIds (snd first));
        r = fetchWithRefresh (bookmarks_fetchPage E includeRaw) pageCount pageCursor h
    in if not_found_failure (fst first)
       then r = (page_of (fst second), snd second)
            \<and> refreshes (since h (snd r)) = 1 \<and> resolves (since h (snd r)) = 2
       else r = (page_of (fst first), snd first)
            \<and> refreshes (since h (snd r)) = 0 \<and> resolves (since h (snd r)) = 1)
   \<and> (let first = folder_fetchPage E folderId includeRaw pageCount pageCursor h;
          second = folder_fetchPage E folderId includeRaw pageCount pageCursor
                     (refreshQueryIds (snd first));
          r = fetchWithRefresh (folder_fetchPage E folderId includeRaw) pageCount pageCursor h
      in if not_found_failure (fst first)
         then r = (page_of (fst second), snd second)
              \<and> refreshes (since h (snd r)) = 1 \<and> resolves (since h (snd r)) = 2
         else r = (page_of (fst first), snd first)
              \<and> refreshes (since h (snd r)) = 0 \<and> resolves (since h (snd r)) = 1)
   \<and> (user_success (getCurrentUser E h) \<and> user_id (getCurrentUser E h) = Some userId \<longrightarrow>
        (let first = likes_tryOnce E (likes_request userId count) (includeRaw_of options)
                       (h @ [CurrentUser]);
             second = likes_tryOnce E (likes_request userId count) (includeRaw_of options)
                        (refreshQueryIds (snd first));
             r = getLikes E count options h
         in if likes_not_found (fst first)
            then r = (likes_result (fst second), snd second)
                 \<and> refreshes (since h (snd r)) = 1 \<and> resolves (since h (snd r)) = 2
            else r = (likes_result (fst first), snd first)
                 \<and> refreshes (since h (snd r)) = 0 \<and> resolves (since h (snd r)) = 1))"
proof (intro conjI impI)
  show "let first = bookmarks_fetchPage E includeRaw pageCount pageCursor h;
            second = bookmarks_fetchPage E includeRaw pageCount pageCursor (refreshQueryIds (snd first));
            r = fetchWithRefresh (bookmarks_fetchPage E includeRaw) pageCount pageCursor h
        in if not_found_failure (fst first)
           then r = (page_of (fst second), snd second)
                \<and> refreshes (since h (snd r)) = 1 \<and> resolves (since h (snd r)) = 2
           else r = (page_of (fst first), snd first)
                \<and> refreshes (since h (snd r)) = 0 \<and> resolves (since h (snd r)) = 1"
    by (rule refresh_cycle [OF sweeping_bookmarks])
next
  show "let first = folder_fetchPage E folderId includeRaw pageCount pageCursor h;
            second = folder_fetchPage E folderId includeRaw pageCount pageCursor
                       (refreshQueryIds (snd first));
            r = fetchWithRefresh (folder_fetchPage E folderId includeRaw) pageCount pageCursor h
        in if not_found_failure (fst first)
           then r = (page_of (fst second), snd second)
                \<and> refreshes (since h (snd r)) = 1 \<and> resolves (since h (snd r)) = 2
           else r = (page_of (fst first), snd first)
                \<and> refreshes (since h (snd r)) = 0 \<and> resolves (since h (snd r)) = 1"
    by (rule refresh_cycle [OF sweeping_folder])
next
  assume "user_success (getCurrentUser E h) \<and> user_id (getCurrentUser E h) = Some userId"
  then have u: "user_success (getCurrentUser E h)" "user_id (getCurrentUser E h) = Some userId"
    by simp_all
  let ?first = "likes_tryOnce E (likes_request userId count) (includeRaw_of options) (h @ [CurrentUser])"
  let ?second = "likes_tryOnce E (likes_request userId count) (includeRaw_of options)
                   (refreshQueryIds (snd ?first))"
  obtain t where t: "snd (getLikes E count options h) = h @ CurrentUser # t"
    and r: "refreshes t = (if likes_not_found (fst ?first) then 1 else 0)"
    and s: "resolves t = 1 + refreshes t"
    using getLikes_known_trace [OF u, of count options] by blast
  have e: "since h (snd (getLikes E count options h)) = CurrentUser # t"
    using t by simp
  have "if likes_not_found (fst ?first)
        then getLikes E count options h = (likes_result (fst ?second), snd ?second)
             \<and> refreshes (since h (snd (getLikes E count options h))) = 1
             \<and> resolves (since h (snd (getLikes E count options h))) = 2
        else getLikes E count options h = (likes_result (fst ?first), snd ?first)
             \<and> refreshes (since h (snd (getLikes E count options h))) = 0
             \<and> resolves (since h (snd (getLikes E count options h))) = 1"
  proof (cases "likes_not_found (fst ?first)")
    case True
    then have "getLikes E count options h = (likes_result (fst ?second), snd ?second)"
      by (simp add: getLikes_known_user [OF u])
    then show ?thesis using True r s unfolding e by (simp add: refreshes_def resolves_def)
  next
    case False
    then have "getLikes E count options h = (likes_result (fst ?first), snd ?first)"
      by (simp add: getLikes_known_user [OF u])
    then show ?thesis using False r s unfolding e by (simp add: refreshes_def resolves_def)
  qed
  then show "let first = likes_tryOnce E (likes_request userId count) (includeRaw_of options)
                           (h @ [CurrentUser]);
                 second = likes_tryOnce E (likes_request userId count) (includeRaw_of options)
                            (refreshQueryIds (snd first));
                 r = getLikes E count options h
             in if likes_not_found (fst first)
                then r = (likes_result (fst second), snd second)
                     \<and> refreshes (since h (snd r)) = 1 \<and> resolves (since h (snd r)) = 2
                else r = (likes_result (fst first), snd first)
                     \<and> refreshes (since h (snd r)) = 0 \<and> resolves (since h (snd r)) = 1"
    unfolding Let_def .
qed

theorem refresh_at_most_once_witness:
  "not_found_failure (fst (bookmarks_fetchPage (demo_env stale_transport alice) False 20 None []))
   \<and> fetchWithRefresh (bookmarks_fetchPage (demo_env stale_transport alice) False) 20 None [] =
       (Page page_dups None False,
        [Resolve ''Bookmarks'',
         Http (bookmarks_request 20 None ''primary'') (Inr (plain_response 404 [])),
         Http (bookmarks_request 20 None ''RV1g3b8n_SGOHwkqKYSCFw'') (Inr (plain_response 404 [])),
         Http (bookmarks_request 20 None ''tmd4ifV8RHltzn8ymGg1aw'') (Inr (plain_response 404 [])),
         Refresh, Resolve ''Bookmarks'',
         Http (bookmarks_request 20 None ''primary'') (Inr (page_response page_dups None))])
   \<and> refreshes (snd (fetchWithRefresh (bookmarks_fetchPage (demo_env stale_transport alice) False)
                        20 None [])) = 1"
  using refresh_at_most_once [of "demo_env stale_transport alice" False 20 None "[]", THEN conjunct1]
  by (simp add: Let_def stale_first stale_second since_def refreshes_def)

text \<open>
  C6, as the code has it. The not-found flag of a page fetch is set exactly when one of
  its requests was answered with status 404, whether the fetch went through all candidates
  or was ended earlier by another answer; \<^verbatim>\<open>fetchWithRefresh\<close> refreshes exactly for
  the failures that carry the flag.
\<close>

theorem not_found_flag:
  "attempt_had404 (fst (bookmarks_fetchPage E includeRaw pageCount pageCursor h))
     = saw_404 (since h (snd (bookmarks_fetchPage E includeRaw pageCount pageCursor h)))
   \<and> attempt_had404 (fst (folder_fetchPage E folderId includeRaw pageCount pageCursor h))
     = saw_404 (since h (snd (folder_fetchPage E folderId includeRaw pageCount pageCursor h)))
   \<and> likes_had404 (fst (likes_tryOnce E mk includeRaw h))
     = saw_404 (since h (snd (likes_tryOnce E mk includeRaw h)))
   \<and> (refreshes (since h (snd (fetchWithRefresh (bookmarks_fetchPage E includeRaw)
                                  pageCount pageCursor h))) = 1)
     = not_found_failure (fst (bookmarks_fetchPage E includeRaw pageCount pageCursor h))
   \<and> (refreshes (since h (snd (fetchWithRefresh (folder_fetchPage E folderId includeRaw)
                                  pageCount pageCursor h))) = 1)
     = not_found_failure (fst (folder_fetchPage E folderId includeRaw pageCount pageCursor h))"
proof (intro conjI)
  show "attempt_had404 (fst (bookmarks_fetchPage E includeRaw pageCount pageCursor h))
          = saw_404 (since h (snd (bookmarks_fetchPage E includeRaw pageCount pageCursor h)))"
    using bookmarks_fetchPage_trace [of E includeRaw pageCount pageCursor h]
    by (auto simp add: saw_404_def)
  show "attempt_had404 (fst (folder_fetchPage E folderId includeRaw pageCount pageCursor h))
          = saw_404 (since h (snd (folder_fetchPage E folderId includeRaw pageCount pageCursor h)))"
    using folder_fetchPage_trace [of E folderId includeRaw pageCount pageCursor h]
    by (auto simp add: saw_404_def)
  show "likes_had404 (fst (likes_tryOnce E mk includeRaw h))
          = saw_404 (since h (snd (likes_tryOnce E mk includeRaw h)))"
    using likes_tryOnce_trace [of E mk includeRaw h]
    by (auto simp add: saw_404_def)
  show "(refreshes (since h (snd (fetchWithRefresh (bookmarks_fetchPage E includeRaw)
                                    pageCount pageCursor h))) = 1)
          = not_found_failure (fst (bookmarks_fetchPage E includeRaw pageCount pageCursor h))"
    by (simp add: refreshes_fetchWithRefresh [OF sweeping_bookmarks])
  show "(refreshes (since h (snd (fetchWithRefresh (folder_fetchPage E folderId includeRaw)
                                    pageCount pageCursor h))) = 1)
          = not_found_failure (fst (folder_fetchPage E folderId includeRaw pageCount pageCursor h))"
    by (simp add: refreshes_fetchWithRefresh [OF sweeping_folder])
qed

lemma mixed_first:
  "bookmarks_fetchPage (demo_env mixed_transport alice) False 20 None [] =
     (Failed ''HTTP 403: denied'' True,
      [Resolve ''Bookmarks'',
       Http (bookmarks_request 20 None ''primary'') (Inr (plain_response 404 [])),
       Http (bookmarks_request 20 None ''RV1g3b8n_SGOHwkqKYSCFw'') (Inr (plain_response 403 ''denied''))])"
  by (simp add: demo_simps mixed_transport_def status_strings bookmarks_request_def)

theorem not_found_flag_witness:
  "attempt_had404 (fst (bookmarks_fetchPage (demo_env mixed_transport alice) False 20 None []))
   \<and> saw_404 (snd (bookmarks_fetchPage (demo_env mixed_transport alice) False 20 None []))
   \<and> refreshes (snd (fetchWithRefresh (bookmarks_fetchPage (demo_env mixed_transport alice) False)
                        20 None [])) = 1"
proof -
  note f = not_found_flag [of "demo_env mixed_transport alice" False 20 None "[]"]
  have a: "attempt_had404 (fst (bookmarks_fetchPage (demo_env mixed_transport alice) False 20 None []))"
    by (simp add: mixed_first)
  then have b: "saw_404 (snd (bookmarks_fetchPage (demo_env mixed_transport alice) False 20 None []))"
    using f [THEN conjunct1] by (simp add: since_def)
  have "not_found_failure (fst (bookmarks_fetchPage (demo_env mixed_transport alice) False 20 None []))"
    by (simp add: mixed_first)
  then have "refreshes (snd (fetchWithRefresh (bookmarks_fetchPage (demo_env mixed_transport alice) False)
                               20 None [])) = 1"
    using f [THEN conjunct2, THEN conjunct2, THEN conjunct2, THEN conjunct1] by (simp add: since_def)
  then show ?thesis using a b by simp
qed

text \<open>
  The claim C6 as it is written fails on this run: the primary id is answered with 404 and
  the first fallback with 403, which ends the fetch. The failure carries the not-found flag
  although the third candidate was never tried and the error is the 403, and
  \<^verbatim>\<open>fetchWithRefresh\<close> refreshes for it.
\<close>

theorem not_found_flag_counterexample:
  "bookmarks_fetchPage (demo_env mixed_transport alice) False 20 None [] =
     (Failed ''HTTP 403: denied'' True,
      [Resolve ''Bookmarks'',
       Http (bookmarks_request 20 None ''primary'') (Inr (plain_response 404 [])),
       Http (bookmarks_request 20 None ''RV1g3b8n_SGOHwkqKYSCFw'') (Inr (plain_response 403 ''denied''))])
   \<and> fst (getBookmarksQueryIds (demo_env mixed_transport alice) [])
       = [''primary'', ''RV1g3b8n_SGOHwkqKYSCFw'', ''tmd4ifV8RHltzn8ymGg1aw'']
   \<and> answers_to (bookmarks_request 20 None ''tmd4ifV8RHltzn8ymGg1aw'')
       (snd (bookmarks_fetchPage (demo_env mixed_transport alice) False 20 None [])) = []
   \<and> refreshes (snd (fetchWithRefresh (bookmarks_fetchPage (demo_env mixed_transport alice) False)
                        20 None [])) = 1"
proof -
  have "not_found_failure (fst (bookmarks_fetchPage (demo_env mixed_transport alice) False 20 None []))"
    by (simp add: mixed_first)
  then have "refreshes (snd (fetchWithRefresh (bookmarks_fetchPage (demo_env mixed_transport alice) False)
                               20 None [])) = 1"
    using refreshes_fetchWithRefresh [OF sweeping_bookmarks, of "[]" "demo_env mixed_transport alice"
        False 20 None]
    by (simp add: since_def)
  then show ?thesis
    by (simp add: mixed_first bookmark_candidates answers_to_def bookmarks_request_def)
qed

section \<open>Claims about retries and provider errors per candidate\<close>

lemma filter_distinct_fst:
  "distinct (map fst xs) \<Longrightarrow> length (filter (\<lambda>x. fst x = a) xs) \<le> 1"
proof (induction xs)
  case Nil
  show ?case by simp
next
  case (Cons x xs)
  show ?case
  proof (cases "fst x = a")
    case True
    then have "a \<notin> fst ` set xs" using Cons.prems by auto
    then have "filter (\<lambda>x. fst x = a) xs = []" by (auto simp add: filter_empty_conv)
    then show ?thesis using True by simp
  next
    case False
    then show ?thesis using Cons by simp
  qed
qed

lemma likes_tryOnce_single_shot:
  "length (answers_to req (since h (snd (likes_tryOnce E (likes_request userId count) includeRaw h)))) \<le> 1"
proof -
  let ?mk = "likes_request userId count"
  let ?qs = "fst (getLikesQueryIds E h)"
  obtain t where t: "snd (likes_tryOnce E ?mk includeRaw h) = h @ Resolve ''Likes'' # t"
    and m: "map fst (https t) = map ?mk (take (length (https t)) ?qs)"
    using likes_tryOnce_trace [of E ?mk includeRaw h] by blast
  have "distinct ?qs" by (simp add: getLikesQueryIds_def distinct_uniq)
  then have "distinct (take (length (https t)) ?qs)" by simp
  moreover have "inj_on ?mk (set (take (length (https t)) ?qs))"
    by (rule inj_on_subset [OF inj_likes_request]) simp
  ultimately have "distinct (map fst (https t))" unfolding m by (simp add: distinct_map)
  then have "length (filter (\<lambda>x. fst x = req) (https t)) \<le> 1" by (rule filter_distinct_fst)
  then show ?thesis using t by (simp add: answers_to_def)
qed

lemma busy_retry:
  "fetchWithRetry (demo_env busy_transport alice) url h =
     (Inr (plain_response 503 ''busy''),
      h @ [Http url (Inr (plain_response 503 ''busy'')), Delay 750,
           Http url (Inr (plain_response 503 ''busy'')), Delay 1250,
           Http url (Inr (plain_response 503 ''busy''))])"
  by (simp add: fetchWithRetry_def fetchWithRetry_from.simps [of _ 0]
      fetchWithRetry_from.simps [of _ "Suc 0"] fetchWithRetry_from.simps [of _ "Suc (Suc 0)"]
      fetchWithRetry_from.simps [of _ 2] maxRetries_def send_def sleep_def backoffMs_def retryAfterMs_def
      baseDelayMs_def demo_env_def busy_transport_def plain_response_def retryable_def)

lemma busy_first:
  "bookmarks_fetchPage (demo_env busy_transport alice) False 20 None [] =
     (Failed ''HTTP 503: busy'' False,
      [Resolve ''Bookmarks'',
       Http (bookmarks_request 20 None ''primary'') (Inr (plain_response 503 ''busy'')), Delay 750,
       Http (bookmarks_request 20 None ''primary'') (Inr (plain_response 503 ''busy'')), Delay 1250,
       Http (bookmarks_request 20 None ''primary'') (Inr (plain_response 503 ''busy''))])"
  by (simp add: bookmarks_fetchPage_def getBookmarksQueryIds_def uniq_def timeline_candidates_step
      busy_retry verdict_def status_strings demo_env_sel
      plain_response_def ok_def)

text \<open>
  C4, as the code has it. In a page fetch of the bookmarks timeline or of a bookmark
  folder, the answers to any one request obey the retry discipline of \<^verbatim>\<open>fetchWithRetry\<close>:
  at most three attempts, each but the last answered with a recoverable status, and a
  recoverable answer taken as final only on the third attempt. \<^verbatim>\<open>getLikes\<close> calls
  \<^verbatim>\<open>fetchWithTimeout\<close> itself: one pass over its candidates sends each request at most
  once.
\<close>

theorem bookmark_requests_are_retried:
  "retry_disciplined
     (answers_to req (since h (snd (bookmarks_fetchPage E includeRaw pageCount pageCursor h))))
   \<and> retry_disciplined
       (answers_to req (since h (snd (folder_fetchPage E folderId includeRaw pageCount pageCursor h))))
   \<and> length (answers_to req
               (since h (snd (likes_tryOnce E (likes_request userId count) includeRaw h)))) \<le> 1"
proof (intro conjI)
  obtain t where "snd (bookmarks_fetchPage E includeRaw pageCount pageCursor h) = h @ Resolve ''Bookmarks'' # t"
    and "\<forall>req. retry_disciplined (answers_to req t)"
    using bookmarks_fetchPage_trace [of E includeRaw pageCount pageCursor h] by blast
  then show "retry_disciplined
               (answers_to req (since h (snd (bookmarks_fetchPage E includeRaw pageCount pageCursor h))))"
    by (simp add: answers_to_def)
next
  obtain t where "snd (folder_fetchPage E folderId includeRaw pageCount pageCursor h)
                    = h @ Resolve ''BookmarkFolderTimeline'' # t"
    and "\<forall>req. retry_disciplined (answers_to req t)"
    using folder_fetchPage_trace [of E folderId includeRaw pageCount pageCursor h] by blast
  then show "retry_disciplined
               (answers_to req (since h (snd (folder_fetchPage E folderId includeRaw pageCount pageCursor h))))"
    by (simp add: answers_to_def)
next
  show "length (answers_to req
                  (since h (snd (likes_tryOnce E (likes_request userId count) includeRaw h)))) \<le> 1"
    by (rule likes_tryOnce_single_shot)
qed

theorem bookmark_requests_are_retried_witness:
  "answers_to (bookmarks_request 20 None ''primary'')
     (snd (bookmarks_fetchPage (demo_env busy_transport alice) False 20 None []))
     = [Inr (plain_response 503 ''busy''), Inr (plain_response 503 ''busy''),
        Inr (plain_response 503 ''busy'')]
   \<and> recoverable (Inr (plain_response 503 ''busy''))
   \<and> retry_disciplined [Inr (plain_response 503 ''busy''), Inr (plain_response 503 ''busy''),
                         Inr (plain_response 503 ''busy'')]"
proof -
  have a: "answers_to (bookmarks_request 20 None ''primary'')
             (snd (bookmarks_fetchPage (demo_env busy_transport alice) False 20 None []))
           = [Inr (plain_response 503 ''busy''), Inr (plain_response 503 ''busy''),
              Inr (plain_response 503 ''busy'')]"
    by (simp add: busy_first answers_to_def)
  have r: "recoverable (Inr (plain_response 503 ''busy''))"
    by (simp add: recoverable_def plain_response_def retryable_def)
  show ?thesis
    using bookmark_requests_are_retried [of "bookmarks_request 20 None ''primary''" "[]"
        "demo_env busy_transport alice" False 20 None, THEN conjunct1] a r
    by (simp add: since_def)
qed

lemma limited_likes:
  "getLikes (demo_env limited_transport alice) 20 no_options [] =
     (failed ''HTTP 429: slow down'',
      [CurrentUser, Resolve ''Likes'',
       Http (likes_request ''42'' 20 ''primary'') (Inr (plain_response 429 ''slow down''))])"
  by (simp add: getLikes_def likes_tryOnce_def getLikesQueryIds_def uniq_def likes_candidates_step
      likes_verdict_def status_strings demo_env_def alice_def limited_transport_def plain_response_def
      ok_def no_options_def includeRaw_of_def)

text \<open>
  The claim C4 as it is written fails for likes: the request is answered with the
  recoverable status 429 and this first answer is final; it is not sent again.
\<close>

theorem bookmark_requests_are_retried_counterexample:
  "getLikes (demo_env limited_transport alice) 20 no_options [] =
     (\<lparr>success = False, tweets = None, error = Some ''HTTP 429: slow down''\<rparr>,
      [CurrentUser, Resolve ''Likes'',
       Http (likes_request ''42'' 20 ''primary'') (Inr (plain_response 429 ''slow down''))])
   \<and> status (plain_response 429 ''slow down'') \<in> retryable
   \<and> \<not> retry_disciplined
         (answers_to (likes_request ''42'' 20 ''primary'')
            (snd (getLikes (demo_env limited_transport alice) 20 no_options [])))"
  by (simp add: limited_likes failed_def plain_response_def retryable_def retry_disciplined_def
      answers_to_def recoverable_def)





section \<open>Claims about the retry wrapper and the folder variant\<close>











lemma folder_candidates:
  "getBookmarkFolderQueryIds (demo_env transport u) h
     = ([''primary'', ''KJIQpsvxrTfRIlbaRIySHQ''], h @ [Resolve ''BookmarkFolderTimeline''])"
  by (simp add: getBookmarkFolderQueryIds_def demo_env_sel uniq_def)

lemma sweep_requests:
  assumes "sweep_trace (buildVariables folderId pageCount pageCursor includeCount) qs t"
    and "x \<in> set (https t)"
  shows "req_count (fst x) = (if includeCount then Some pageCount else None)
       \<and> req_cursor (fst x) = (if truthy pageCursor then pageCursor else None)
       \<and> req_queryId (fst x) \<in> set qs"
proof -
  obtain q where "q \<in> set qs" and "fst x = buildVariables folderId pageCount pageCursor includeCount q"
    using assms unfolding sweep_trace_def by blast
  then show ?thesis by (simp add: buildVariables_def)
qed

lemma folder_fetchPage_structure:
  "(let qs = fst (getBookmarkFolderQueryIds E h);
        h0 = snd (getBookmarkFolderQueryIds E h);
        first = folder_tryOnce E includeRaw qs (buildVariables folderId pageCount pageCursor True)
                  None False h0;
        retry = folder_tryOnce E includeRaw qs (buildVariables folderId pageCount pageCursor False)
                  (fst (snd (fst first))) (snd (snd (fst first))) (snd first);
        final = (if attempt_failed_with (fst (fst first)) count_marker then retry else first)
    in folder_fetchPage E folderId includeRaw pageCount pageCursor h =
         (if attempt_failed_with (fst (fst final)) cursor_marker \<and> truthy pageCursor
          then Failed ''Bookmark folder pagination rejected the cursor parameter''
                 (attempt_had404 (fst (fst final)))
          else fst (fst final), snd final))"
  by (simp add: folder_fetchPage_def Let_def case_prod_beta)

text \<open>
  C9. The page fetch of a bookmark folder resolves the candidates once and runs
  \<^verbatim>\<open>tryOnce\<close> with the count. If that attempt fails with an error that names the count
  variable, it runs \<^verbatim>\<open>tryOnce\<close> once more over the same candidates with requests that
  have no count, and this second attempt is the final one; otherwise the first is. If the
  final attempt fails with an error that names the cursor variable and a cursor was given,
  the fetch returns the failure \<open>Bookmark folder pagination rejected the cursor parameter\<close>,
  and otherwise the final attempt. Every request of the fetch carries the cursor that was
  given.
\<close>

theorem folder_rejected_parameters:
  "(let qs = fst (getBookmarkFolderQueryIds E h);
        h0 = snd (getBookmarkFolderQueryIds E h);
        first = folder_tryOnce E includeRaw qs (buildVariables folderId pageCount pageCursor True)
                  None False h0;
        retry = folder_tryOnce E includeRaw qs (buildVariables folderId pageCount pageCursor False)
                  (fst (snd (fst first))) (snd (snd (fst first))) (snd first);
        final = (if attempt_failed_with (fst (fst first)) count_marker then retry else first);
        r = folder_fetchPage E folderId includeRaw pageCount pageCursor h
    in snd r = snd final
       \<and> (attempt_failed_with (fst (fst final)) cursor_marker \<and> truthy pageCursor \<longrightarrow>
            fst r = Failed ''Bookmark folder pagination rejected the cursor parameter''
                      (attempt_had404 (fst (fst final))))
       \<and> (\<not> (attempt_failed_with (fst (fst final)) cursor_marker \<and> truthy pageCursor) \<longrightarrow>
            fst r = fst (fst final))
       \<and> (\<forall>x \<in> set (https (since h0 (snd first))).
            req_count (fst x) = Some pageCount \<and> req_queryId (fst x) \<in> set qs)
       \<and> (\<forall>x \<in> set (https (since (snd first) (snd retry))).
            req_count (fst x) = None \<and> req_queryId (fst x) \<in> set qs)
       \<and> (\<forall>x \<in> set (https (since h (snd r))).
            req_cursor (fst x) = (if truthy pageCursor then pageCursor else None))
       \<and> resolves (since h (snd r)) = 1)
   \<and> count_marker = ''Variable '' @ [CHR 0x22] @ ''$count'' @ [CHR 0x22]
   \<and> cursor_marker = ''Variable '' @ [CHR 0x22] @ ''$cursor'' @ [CHR 0x22]"
proof -
  let ?qs = "fst (getBookmarkFolderQueryIds E h)"
  let ?h0 = "snd (getBookmarkFolderQueryIds E h)"
  let ?mk = "buildVariables folderId pageCount pageCursor"
  let ?first = "folder_tryOnce E includeRaw ?qs (?mk True) None False ?h0"
  let ?retry = "folder_tryOnce E includeRaw ?qs (?mk False) (fst (snd (fst ?first)))
                  (snd (snd (fst ?first))) (snd ?first)"
  let ?final = "if attempt_failed_with (fst (fst ?first)) count_marker then ?retry else ?first"
  let ?r = "folder_fetchPage E folderId includeRaw pageCount pageCursor h"
  have r: "?r = (if attempt_failed_with (fst (fst ?final)) cursor_marker \<and> truthy pageCursor
                 then Failed ''Bookmark folder pagination rejected the cursor parameter''
                        (attempt_had404 (fst (fst ?final)))
                 else fst (fst ?final), snd ?final)"
    using folder_fetchPage_structure [of E h includeRaw folderId pageCount pageCursor]
    by (simp add: Let_def)
  obtain t1 where t1: "snd ?first = ?h0 @ t1" and sw1: "sweep_trace (?mk True) ?qs t1"
    using timeline_candidates_trace [of E "?mk True" "''bookmark folder''" includeRaw ?qs None False ?h0]
    unfolding folder_tryOnce_def by blast
  obtain t2 where t2: "snd ?retry = snd ?first @ t2" and sw2: "sweep_trace (?mk False) ?qs t2"
    using timeline_candidates_trace [of E "?mk False" "''bookmark folder''" includeRaw ?qs
        "fst (snd (fst ?first))" "snd (snd (fst ?first))" "snd ?first"]
    unfolding folder_tryOnce_def by blast
  obtain t where t: "snd ?r = h @ Resolve ''BookmarkFolderTimeline'' # t"
    and tr: "list_all is_transport t"
    and cur: "\<forall>x \<in> set (https t). req_cursor (fst x) = (if truthy pageCursor then pageCursor else None)"
    using folder_fetchPage_trace [of E folderId includeRaw pageCount pageCursor h] by blast
  have a: "snd ?r = snd ?final" by (subst r) simp
  have b: "attempt_failed_with (fst (fst ?final)) cursor_marker \<and> truthy pageCursor \<longrightarrow>
             fst ?r = Failed ''Bookmark folder pagination rejected the cursor parameter''
                        (attempt_had404 (fst (fst ?final)))"
    by (subst r) simp
  have c: "\<not> (attempt_failed_with (fst (fst ?final)) cursor_marker \<and> truthy pageCursor) \<longrightarrow>
             fst ?r = fst (fst ?final)"
    by (subst r) simp
  have d: "\<forall>x \<in> set (https (since ?h0 (snd ?first))).
             req_count (fst x) = Some pageCount \<and> req_queryId (fst x) \<in> set ?qs"
    using sweep_requests [OF sw1] by (simp add: t1)
  have e: "\<forall>x \<in> set (https (since (snd ?first) (snd ?retry))).
             req_count (fst x) = None \<and> req_queryId (fst x) \<in> set ?qs"
    using sweep_requests [OF sw2] by (simp add: t2)
  have f: "\<forall>x \<in> set (https (since h (snd ?r))).
             req_cursor (fst x) = (if truthy pageCursor then pageCursor else None)"
    using cur by (simp add: t)
  have g: "resolves (since h (snd ?r)) = 1"
    using transport_no_resolve [OF tr] by (simp add: t resolves_def)
  show ?thesis
    unfolding Let_def using a b c d e f g by (simp add: count_marker_def cursor_marker_def dq_def)
qed

lemma count_first:
  "folder_tryOnce (demo_env count_transport alice) False [''primary'', ''KJIQpsvxrTfRIlbaRIySHQ'']
     (buildVariables ''f1'' 20 None True) None False [Resolve ''BookmarkFolderTimeline''] =
     ((Failed count_failure False, None, False),
      [Resolve ''BookmarkFolderTimeline'',
       Http (buildVariables ''f1'' 20 None True ''primary'')
         (Inr (plain_response 400 (count_marker @ '' is not defined'')))])"
  by (simp add: folder_tryOnce_def timeline_candidates_step fetchWithRetry_final verdict_def
      demo_env_sel count_transport_def buildVariables_def plain_response_def recoverable_def
      retryable_def ok_def status_strings count_marker_def dq_def count_failure_def)

lemma count_retry:
  "folder_tryOnce (demo_env count_transport alice) False [''primary'', ''KJIQpsvxrTfRIlbaRIySHQ'']
     (buildVariables ''f1'' 20 None False) None False
     [Resolve ''BookmarkFolderTimeline'',
      Http (buildVariables ''f1'' 20 None True ''primary'')
        (Inr (plain_response 400 (count_marker @ '' is not defined'')))] =
     ((Got page_dups None False, None, False),
      [Resolve ''BookmarkFolderTimeline'',
       Http (buildVariables ''f1'' 20 None True ''primary'')
         (Inr (plain_response 400 (count_marker @ '' is not defined''))),
       Http (buildVariables ''f1'' 20 None False ''primary'') (Inr (page_response page_dups None))])"
  by (simp add: folder_tryOnce_def timeline_candidates_step fetchWithRetry_final verdict_def
      demo_env_sel count_transport_def buildVariables_def plain_response_def page_response_def
      recoverable_def retryable_def ok_def has_errors_def)

lemma cursor_first:
  "folder_tryOnce (demo_env cursor_transport alice) False [''primary'', ''KJIQpsvxrTfRIlbaRIySHQ'']
     (buildVariables ''f1'' 20 (Some ''c9'') True) None False [Resolve ''BookmarkFolderTimeline''] =
     ((Failed cursor_failure False, None, False),
      [Resolve ''BookmarkFolderTimeline'',
       Http (buildVariables ''f1'' 20 (Some ''c9'') True ''primary'')
         (Inr (plain_response 400 (cursor_marker @ '' got invalid value'')))])"
  by (simp add: folder_tryOnce_def timeline_candidates_step fetchWithRetry_final verdict_def
      demo_env_sel cursor_transport_def buildVariables_def plain_response_def recoverable_def
      retryable_def ok_def status_strings cursor_marker_def dq_def truthy_def cursor_failure_def)

lemma marker_tests:
  "str_includes count_failure count_marker"
  "\<not> str_includes cursor_failure count_marker"
  "str_includes cursor_failure cursor_marker"
  by (simp_all add: count_marker_def cursor_marker_def dq_def count_failure_def cursor_failure_def)

theorem folder_rejected_parameters_witness:
  "folder_fetchPage (demo_env count_transport alice) ''f1'' False 20 None [] =
     (Got page_dups None False,
      [Resolve ''BookmarkFolderTimeline'',
       Http (buildVariables ''f1'' 20 None True ''primary'')
         (Inr (plain_response 400 (count_marker @ '' is not defined''))),
       Http (buildVariables ''f1'' 20 None False ''primary'') (Inr (page_response page_dups None))])
   \<and> folder_fetchPage (demo_env cursor_transport alice) ''f1'' False 20 (Some ''c9'') [] =
     (Failed ''Bookmark folder pagination rejected the cursor parameter'' False,
      [Resolve ''BookmarkFolderTimeline'',
       Http (buildVariables ''f1'' 20 (Some ''c9'') True ''primary'')
         (Inr (plain_response 400 (cursor_marker @ '' got invalid value'')))])"
proof -
  have a: "folder_fetchPage (demo_env count_transport alice) ''f1'' False 20 None [] =
     (Got page_dups None False,
      [Resolve ''BookmarkFolderTimeline'',
       Http (buildVariables ''f1'' 20 None True ''primary'')
         (Inr (plain_response 400 (count_marker @ '' is not defined''))),
       Http (buildVariables ''f1'' 20 None False ''primary'') (Inr (page_response page_dups None))])"
    using folder_rejected_parameters [of "demo_env count_transport alice" "[]" False "''f1''" 20 None,
        THEN conjunct1]
    by (simp add: Let_def folder_candidates count_first count_retry marker_tests prod_eq_iff)
  have b: "folder_fetchPage (demo_env cursor_transport alice) ''f1'' False 20 (Some ''c9'') [] =
     (Failed ''Bookmark folder pagination rejected the cursor parameter'' False,
      [Resolve ''BookmarkFolderTimeline'',
       Http (buildVariables ''f1'' 20 (Some ''c9'') True ''primary'')
         (Inr (plain_response 400 (cursor_marker @ '' got invalid value'')))])"
    using folder_rejected_parameters [of "demo_env cursor_transport alice" "[]" False "''f1''" 20
        "Some ''c9''", THEN conjunct1]
    by (simp add: Let_def folder_candidates cursor_first marker_tests prod_eq_iff truthy_def)
  show ?thesis using a b by simp
qed

end
